theory Spec2Isabelle
  imports Complex_Main "HOL-Library.Word"
begin

unbundle bit_operations_syntax

section \<open>The mixer of flight/mixer.c\<close>

text \<open>
  This theory embeds the helicopter mixer of \<^verbatim>\<open>src/main/flight/mixer.c\<close>: the
  input registry (\<^verbatim>\<open>mixerSetInput\<close>), the swash compensator (\<^verbatim>\<open>mixerCyclicLimit\<close>),
  the tail motor lineariser (\<^verbatim>\<open>mixerUpdateMotorizedTail\<close>), the rule engine
  (\<^verbatim>\<open>mixerUpdate\<close>), the loader (\<^verbatim>\<open>mixerInit\<close>, \<^verbatim>\<open>mixerInitSwash\<close>) and the saturation
  tracker.

  Conventions of the embedding.
  \<^item> The file-static variables of mixer.c are the fields of the record \<open>mixer_state\<close>;
    every C function that writes them takes the state and returns the new one.
  \<^item> The fixed-size C arrays are lists. The C code indexes them without a check
    (an index outside the array is undefined behaviour), so the theorems assume the
    index inside the list.
  \<^item> C integers are words of their width, read with \<open>sint\<close> or \<open>unat\<close> where C
    promotes them to \<^verbatim>\<open>int\<close> or converts them to \<^verbatim>\<open>float\<close>.
  \<^item> A C \<^verbatim>\<open>float\<close> is modelled as a real number: the arithmetic is exact, and
    NaN, the infinities, the signed zero and rounding are outside the model. The
    comparisons, \<^verbatim>\<open>fmaxf\<close>, \<^verbatim>\<open>fabsf\<close>, \<^verbatim>\<open>copysignf\<close> and \<^verbatim>\<open>sqrtf\<close> are the real ones.
  \<^item> The header flight/mixer.h is not among the sources. Its numeric macros and
    enumerators are the fields of the record \<open>mixer_h\<close>, a parameter of the model;
    nothing is assumed about their values except where a theorem says so.
\<close>

subsection \<open>Types\<close>

type_synonym int8_t = "8 word"
type_synonym uint8_t = "8 word"
type_synonym int16_t = "16 word"
type_synonym uint16_t = "16 word"
type_synonym uint32_t = "32 word"

text \<open>The macros and enumerators of flight/mixer.h that mixer.c uses.\<close>

record mixer_h =
  MIXER_INPUT_COUNT :: nat
  MIXER_OUTPUT_COUNT :: nat
  MIXER_RULE_COUNT :: nat
  MIXER_OVERRIDE_MIN :: int
  MIXER_OVERRIDE_MAX :: int
  MIXER_OVERRIDE_OFF :: int
  MIXER_SATURATION_TIME :: nat
  MIXER_INPUT_MIN :: int
  MIXER_INPUT_MAX :: int
  MIXER_WEIGHT_MIN :: int
  MIXER_WEIGHT_MAX :: int
  MIXER_IN_STABILIZED_ROLL :: nat
  MIXER_IN_STABILIZED_PITCH :: nat
  MIXER_IN_STABILIZED_YAW :: nat
  MIXER_IN_STABILIZED_THROTTLE :: nat

text \<open>
  Modelled from the spec: the structures \<^verbatim>\<open>mixerInput_t\<close>, \<^verbatim>\<open>mixerRule_t\<close> and
  \<^verbatim>\<open>mixerConfig_t\<close> are declared in flight/mixer.h, which is not among the sources. Their
  fields are those that mixer.c reads and writes, with the widths that the specification
  gives for the persisted configuration.

  \<^verbatim>\<open>mixerInput_t\<close>: the fields \<^verbatim>\<open>rate\<close>, \<^verbatim>\<open>min\<close> and \<^verbatim>\<open>max\<close> of one input, signed 16-bit
  values in thousandths.
\<close>

record mixerInput_t =
  in_rate :: int16_t
  in_min :: int16_t
  in_max :: int16_t

text \<open>
  \<^verbatim>\<open>mixerRule_t\<close>: one slot of the rule table. The gate mask \<^verbatim>\<open>mode\<close> is 32 bits wide: line
  287 matches it against both halves of the 32-bit flight mode mask. The fields \<^verbatim>\<open>input\<close>
  and \<^verbatim>\<open>output\<close> are \<open>input_idx\<close> and \<open>output_idx\<close> here (both words are reserved in theory
  files).
\<close>

record mixerRule_t =
  mode :: uint32_t
  oper :: uint8_t
  input_idx :: uint8_t
  output_idx :: uint8_t
  offset :: int16_t
  weight :: int16_t

text \<open>The enumerators of the rotor direction and of the tail rotor mode that mixer.c names.\<close>

datatype rotor_dir = DIR_CW | DIR_CCW

datatype tail_mode = TAIL_MODE_VARIABLE | TAIL_MODE_MOTORIZED | TAIL_MODE_BIDIRECTIONAL

text \<open>
  \<^verbatim>\<open>mixerConfig_t\<close>. The specification gives no width for its integer fields; they are
  mathematical integers here, so that the theorems hold for whatever C integer type the
  header gives them.
\<close>

record mixerConfig_t =
  main_rotor_dir :: rotor_dir
  tail_rotor_mode :: tail_mode
  tail_motor_idle :: int
  swash_ring :: int
  swash_phase :: int

text \<open>The three parameter groups that mixer.c registers: the persisted configuration.\<close>

record mixer_pg =
  mixerConfig :: mixerConfig_t
  mixerRules :: "mixerRule_t list"
  mixerInputs :: "mixerInput_t list"

text \<open>The file-static variables of mixer.c.\<close>

record mixer_state =
  rules :: "mixerRule_t list"
  mixInput :: "real list"
  mixOutput :: "real list"
  mixOverride :: "int16_t list"
  mixOutputMap :: "uint32_t list"
  mixSaturated :: "uint16_t list"
  cyclicTotal :: real
  cyclicLimit :: real
  tailMotorIdle :: real
  tailMotorDirection :: int8_t
  phaseSin :: real
  phaseCos :: real

text \<open>The conversion of an \<^verbatim>\<open>int16_t\<close> to \<^verbatim>\<open>float\<close> (exact in C as well).\<close>

definition float_of_int16 :: "int16_t \<Rightarrow> real" where
  "float_of_int16 w = real_of_int (sint w)"

subsection \<open>Saturation tracker\<close>

text \<open>
  Modelled from the spec: the macro \<^verbatim>\<open>BIT\<close> is defined in a header that is not among the
  sources; \<^verbatim>\<open>BIT(x)\<close> is the bitmap with the single bit \<open>x\<close>, \<^verbatim>\<open>(1 << (x))\<close>, which C defines
  for \<open>x < 32\<close> only. The contributor bitmaps are \<^verbatim>\<open>uint32_t\<close>.
\<close>

definition BIT :: "nat \<Rightarrow> uint32_t" where
  "BIT x = push_bit x 1"

text \<open>
  The three functions take the index as \<^verbatim>\<open>uint8_t\<close>; a caller that holds an
  \<^verbatim>\<open>int\<close> passes it through \<open>of_nat\<close>, the conversion C applies.
\<close>

definition mixerSaturated :: "uint8_t \<Rightarrow> mixer_state \<Rightarrow> bool" where
  "mixerSaturated index st = (mixSaturated st ! unat index > 0)"

definition mixerSaturateInput :: "mixer_h \<Rightarrow> uint8_t \<Rightarrow> mixer_state \<Rightarrow> mixer_state" where
  "mixerSaturateInput K index st =
     st\<lparr>mixSaturated := (mixSaturated st)[unat index := of_nat (MIXER_SATURATION_TIME K)]\<rparr>"

text \<open>The loop of \<^verbatim>\<open>mixerSaturateOutput\<close> runs \<open>i\<close> from 1 to \<open>MIXER_INPUT_COUNT - 1\<close>.\<close>

definition mixerSaturateOutput :: "mixer_h \<Rightarrow> uint8_t \<Rightarrow> mixer_state \<Rightarrow> mixer_state" where
  "mixerSaturateOutput K index st =
     foldl (\<lambda>s i. if mixOutputMap s ! unat index AND BIT i \<noteq> 0
                   then mixerSaturateInput K (of_nat i) s else s)
       st [1..<MIXER_INPUT_COUNT K]"

text \<open>\<^verbatim>\<open>mixerSetOverride\<close> (lines 400 to 403), the setter of the override control surface.\<close>

definition mixerSetOverride :: "uint8_t \<Rightarrow> int16_t \<Rightarrow> mixer_state \<Rightarrow> mixer_state" where
  "mixerSetOverride i v st = st\<lparr>mixOverride := (mixOverride st)[unat i := v]\<rparr>"

subsection \<open>Input registry\<close>

text \<open>
  Lines 98 to 102 of \<^verbatim>\<open>mixerSetInput\<close>: the value that goes on to the limits. The
  arming flag \<^verbatim>\<open>ARMING_FLAG(ARMED)\<close> belongs to fc/runtime_config.h and is the
  parameter \<open>armed\<close>.
\<close>

definition mixerOverrideValue :: "mixer_h \<Rightarrow> bool \<Rightarrow> nat \<Rightarrow> real \<Rightarrow> mixer_state \<Rightarrow> real" where
  "mixerOverrideValue K armed index v st =
     (if \<not> armed then
        (if MIXER_OVERRIDE_MIN K \<le> sint (mixOverride st ! index) \<and>
            sint (mixOverride st ! index) \<le> MIXER_OVERRIDE_MAX K
         then float_of_int16 (mixOverride st ! index) / 1000
         else v)
      else v)"

definition mixerSetInput ::
  "mixer_h \<Rightarrow> mixer_pg \<Rightarrow> bool \<Rightarrow> nat \<Rightarrow> real \<Rightarrow> mixer_state \<Rightarrow> mixer_state" where
  "mixerSetInput K pg armed index v st =
     (let inp = mixerInputs pg ! index;
          v1 = mixerOverrideValue K armed index v st;
          imin = float_of_int16 (in_min inp) / 1000;
          imax = float_of_int16 (in_max inp) / 1000
      in if v1 > imax then
           mixerSaturateInput K (of_nat index) (st\<lparr>mixInput := (mixInput st)[index := imax]\<rparr>)
         else if v1 < imin then
           mixerSaturateInput K (of_nat index) (st\<lparr>mixInput := (mixInput st)[index := imin]\<rparr>)
         else
           st\<lparr>mixInput := (mixInput st)[index := v1]\<rparr>)"


subsection \<open>Swash compensator\<close>


text \<open>Lines 124 to 132 of \<^verbatim>\<open>mixerCyclicLimit\<close>: swash phasing.\<close>

definition mixerCyclicLimit_phase :: "mixer_h \<Rightarrow> mixer_state \<Rightarrow> mixer_state" where
  "mixerCyclicLimit_phase K st =
     (if phaseSin st \<noteq> 0 then
        (let SR = mixInput st ! MIXER_IN_STABILIZED_ROLL K;
             SP = mixInput st ! MIXER_IN_STABILIZED_PITCH K
         in st\<lparr>mixInput := (mixInput st)
               [MIXER_IN_STABILIZED_PITCH K := SP * phaseCos st - SR * phaseSin st,
                MIXER_IN_STABILIZED_ROLL K := SP * phaseSin st + SR * phaseCos st]\<rparr>)
      else st)"




subsection \<open>Tail motor lineariser\<close>

text \<open>
  Modelled from the spec: \<^verbatim>\<open>mixerIsTailMode\<close> is declared in flight/mixer.h, which is not
  among the sources; it tells whether the configured tail rotor mode is the given one.
\<close>

definition mixerIsTailMode :: "mixer_pg \<Rightarrow> tail_mode \<Rightarrow> bool" where
  "mixerIsTailMode pg m = (tail_rotor_mode (mixerConfig pg) = m)"

text \<open>\<^verbatim>\<open>copysignf(x, y)\<close> of the C library: the magnitude of \<open>x\<close> with the sign of \<open>y\<close>.\<close>

definition copysignf :: "real \<Rightarrow> real \<Rightarrow> real" where
  "copysignf x y = (if y < 0 then - \<bar>x\<bar> else \<bar>x\<bar>)"

text \<open>
  \<^verbatim>\<open>mixerUpdateMotorizedTail\<close>. The governor's \<^verbatim>\<open>isSpooledUp()\<close> is the parameter
  \<open>spooledUp\<close>.
\<close>

definition mixerUpdateMotorizedTail ::
  "mixer_h \<Rightarrow> mixer_pg \<Rightarrow> bool \<Rightarrow> mixer_state \<Rightarrow> mixer_state" where
  "mixerUpdateMotorizedTail K pg spooledUp st =
     (if mixerIsTailMode pg TAIL_MODE_MOTORIZED then
        (let yaw = mixInput st ! MIXER_IN_STABILIZED_YAW K;
             throttle = sqrt (max yaw 0);
             throttle = max throttle (tailMotorIdle st);
             throttle =
               (if \<not> spooledUp then
                  (if mixInput st ! MIXER_IN_STABILIZED_THROTTLE K < 1 / 100 then 0
                   else if mixInput st ! MIXER_IN_STABILIZED_THROTTLE K < 20 / 100
                   then throttle * (mixInput st ! MIXER_IN_STABILIZED_THROTTLE K / (20 / 100))
                   else throttle)
                else throttle)
         in st\<lparr>mixInput := (mixInput st)[MIXER_IN_STABILIZED_YAW K := throttle]\<rparr>)
      else if mixerIsTailMode pg TAIL_MODE_BIDIRECTIONAL then
        (let yaw = mixInput st ! MIXER_IN_STABILIZED_YAW K;
             throttle = copysignf (sqrt \<bar>yaw\<bar>) yaw;
             throttle =
               (if throttle > - tailMotorIdle st \<and> throttle < tailMotorIdle st
                then real_of_int (sint (tailMotorDirection st)) * tailMotorIdle st
                else throttle);
             throttle =
               (if \<not> spooledUp then
                  (if mixInput st ! MIXER_IN_STABILIZED_THROTTLE K < 1 / 100 then 0
                   else if mixInput st ! MIXER_IN_STABILIZED_THROTTLE K < 20 / 100
                   then throttle * (mixInput st ! MIXER_IN_STABILIZED_THROTTLE K / (20 / 100))
                   else throttle)
                else throttle)
         in st\<lparr>tailMotorDirection := (if throttle < 0 then - 1 else 1),
               mixInput := (mixInput st)[MIXER_IN_STABILIZED_YAW K := throttle]\<rparr>)
      else st)"

text \<open>
  Lines 257 to 268 of \<^verbatim>\<open>mixerUpdateInputs\<close>, the end of one tick's input stage: the yaw
  demand \<^verbatim>\<open>mixerRotationSign() * getPidSum(FD_YAW)\<close> and the governor's output
  \<^verbatim>\<open>getGovernorOutput()\<close> are the values \<open>yawDemand\<close> and \<open>governorOutput\<close>, and
  \<^verbatim>\<open>mixerMotorizedTail()\<close> is the flag \<open>motorizedTail\<close>.
\<close>

definition mixerUpdateInputs_tail ::
  "mixer_h \<Rightarrow> mixer_pg \<Rightarrow> bool \<Rightarrow> bool \<Rightarrow> bool \<Rightarrow> real \<Rightarrow> real \<Rightarrow> mixer_state \<Rightarrow> mixer_state" where
  "mixerUpdateInputs_tail K pg armed motorizedTail spooledUp yawDemand governorOutput st =
     (let st1 = mixerSetInput K pg armed (MIXER_IN_STABILIZED_YAW K) yawDemand st;
          st2 = mixerSetInput K pg armed (MIXER_IN_STABILIZED_THROTTLE K) governorOutput st1
      in if motorizedTail then mixerUpdateMotorizedTail K pg spooledUp st2 else st2)"

subsection \<open>Rule engine\<close>

text \<open>
  Modelled from the spec: the enumeration of rule operators is declared in
  flight/mixer.h, which is not among the sources; the spec gives it as
  \<open>{NONE, SET, ADD, MUL}\<close>, and a C enumeration counts from 0.
\<close>

definition MIXER_OP_NONE :: uint8_t where
  "MIXER_OP_NONE = 0"

definition MIXER_OP_SET :: uint8_t where
  "MIXER_OP_SET = 1"

definition MIXER_OP_ADD :: uint8_t where
  "MIXER_OP_ADD = 2"

definition MIXER_OP_MUL :: uint8_t where
  "MIXER_OP_MUL = 3"

definition MIXER_OP_COUNT :: int where
  "MIXER_OP_COUNT = 4"

text \<open>Lines 276 to 280 of \<^verbatim>\<open>mixerUpdate\<close>: every output and its contributor bitmap to zero.\<close>

definition mixerResetOutputs :: "mixer_h \<Rightarrow> mixer_state \<Rightarrow> mixer_state" where
  "mixerResetOutputs K st =
     foldl (\<lambda>s i. s\<lparr>mixOutput := (mixOutput s)[i := 0],
                    mixOutputMap := (mixOutputMap s)[i := 0]\<rparr>)
       st [0..<MIXER_OUTPUT_COUNT K]"

text \<open>
  Line 283. \<^verbatim>\<open>flightModeFlags\<close> belongs to fc/runtime_config.h and is a 16-bit flag
  word; C promotes it to \<^verbatim>\<open>int\<close> before \<^verbatim>\<open>~\<close>, the cast to \<^verbatim>\<open>uint32_t\<close> keeps the 32
  bits, and the shift drops the upper half.
\<close>

definition flightModeMask :: "uint16_t \<Rightarrow> uint32_t" where
  "flightModeMask flightModeFlags =
     push_bit 16 (NOT (ucast flightModeFlags)) OR ucast flightModeFlags"

text \<open>The condition of line 287: whether the loop applies the rule.\<close>

definition mixerRuleApplies :: "uint32_t \<Rightarrow> mixerRule_t \<Rightarrow> bool" where
  "mixerRuleApplies fmask r = (oper r \<noteq> 0 \<and> (mode r = 0 \<or> mode r AND fmask \<noteq> 0))"

text \<open>Lines 290 and 291: the value \<^verbatim>\<open>out\<close> that a rule computes from its input.\<close>

definition mixerRuleOutput :: "mixer_pg \<Rightarrow> mixer_state \<Rightarrow> mixerRule_t \<Rightarrow> real" where
  "mixerRuleOutput pg st r =
     (let src = unat (input_idx r);
          val = mixInput st ! src * float_of_int16 (in_rate (mixerInputs pg ! src)) / 1000
      in (float_of_int16 (offset r) + float_of_int16 (weight r) * val) / 1000)"

text \<open>Lines 287 to 308: the body of the loop, for the rule in one slot.\<close>

definition mixerUpdate_rule :: "mixer_pg \<Rightarrow> uint32_t \<Rightarrow> mixerRule_t \<Rightarrow> mixer_state \<Rightarrow> mixer_state" where
  "mixerUpdate_rule pg fmask r st =
     (if mixerRuleApplies fmask r then
        (let src = unat (input_idx r);
             dst = unat (output_idx r);
             out = mixerRuleOutput pg st r
         in if oper r = MIXER_OP_SET then
              st\<lparr>mixOutput := (mixOutput st)[dst := out],
                 mixOutputMap := (mixOutputMap st)[dst := BIT src]\<rparr>
            else if oper r = MIXER_OP_ADD then
              st\<lparr>mixOutput := (mixOutput st)[dst := mixOutput st ! dst + out],
                 mixOutputMap := (mixOutputMap st)[dst := mixOutputMap st ! dst OR BIT src]\<rparr>
            else if oper r = MIXER_OP_MUL then
              st\<lparr>mixOutput := (mixOutput st)[dst := mixOutput st ! dst * out],
                 mixOutputMap := (mixOutputMap st)[dst := mixOutputMap st ! dst OR BIT src]\<rparr>
            else st)
      else st)"

text \<open>Lines 286 to 309: the slots in table order, from 0 to \<open>MIXER_RULE_COUNT - 1\<close>.\<close>

definition mixerUpdate_rules :: "mixer_h \<Rightarrow> mixer_pg \<Rightarrow> uint32_t \<Rightarrow> mixer_state \<Rightarrow> mixer_state" where
  "mixerUpdate_rules K pg fmask st =
     foldl (\<lambda>s i. mixerUpdate_rule pg fmask (rules s ! i) s) st [0..<MIXER_RULE_COUNT K]"

text \<open>
  \<^verbatim>\<open>mixerUpdate\<close> after its call of \<^verbatim>\<open>mixerUpdateInputs\<close> (lines 276 to 309), on the
  state that the input stage leaves.
\<close>

definition mixerUpdate_outputs :: "mixer_h \<Rightarrow> mixer_pg \<Rightarrow> uint16_t \<Rightarrow> mixer_state \<Rightarrow> mixer_state" where
  "mixerUpdate_outputs K pg flightModeFlags st =
     mixerUpdate_rules K pg (flightModeMask flightModeFlags) (mixerResetOutputs K st)"

subsection \<open>Loading the configuration\<close>

text \<open>
  The trigonometric helpers \<^verbatim>\<open>sin_approx\<close> and \<^verbatim>\<open>cos_approx\<close> and the macro
  \<^verbatim>\<open>DECIDEGREES_TO_RADIANS\<close> of common/maths.h, which is not among the sources, are
  parameters of the model.
\<close>

record maths_h =
  sin_approx :: "real \<Rightarrow> real"
  cos_approx :: "real \<Rightarrow> real"
  DECIDEGREES_TO_RADIANS :: "int \<Rightarrow> real"

text \<open>
  Modelled from the spec: \<^verbatim>\<open>constrain\<close> is defined in common/maths.h, which is not among
  the sources; it clamps an \<^verbatim>\<open>int\<close> to the nearest value of the range.
\<close>

definition constrain :: "int \<Rightarrow> int \<Rightarrow> int \<Rightarrow> int" where
  "constrain amt low high = (if amt < low then low else if amt > high then high else amt)"

definition mixerInitSwash :: "maths_h \<Rightarrow> mixer_pg \<Rightarrow> mixer_state \<Rightarrow> mixer_state" where
  "mixerInitSwash M pg st =
     (let st1 =
            (if swash_phase (mixerConfig pg) \<noteq> 0 then
               (let angle = DECIDEGREES_TO_RADIANS M (swash_phase (mixerConfig pg))
                in st\<lparr>phaseSin := sin_approx M angle, phaseCos := cos_approx M angle\<rparr>)
             else st\<lparr>phaseSin := 0, phaseCos := 1\<rparr>)
      in if swash_ring (mixerConfig pg) \<noteq> 0 then
           st1\<lparr>cyclicLimit := 141 / 100 - real_of_int (swash_ring (mixerConfig pg)) * (41 / 10000)\<rparr>
         else st1\<lparr>cyclicLimit := 0\<rparr>)"

text \<open>
  Lines 337 to 342 of \<^verbatim>\<open>mixerInit\<close>: the six assignments that load a persisted rule into
  its slot. \<^verbatim>\<open>constrain\<close> works on \<^verbatim>\<open>int\<close>, and the assignment converts its result to
  the type of the field.
\<close>

definition mixerInit_slot :: "mixer_h \<Rightarrow> mixerRule_t \<Rightarrow> mixerRule_t \<Rightarrow> mixerRule_t" where
  "mixerInit_slot K rule slot =
     slot\<lparr>mode := mode rule,
          oper := of_int (constrain (uint (oper rule)) 0 (MIXER_OP_COUNT - 1)),
          input_idx := of_int (constrain (uint (input_idx rule)) 0 (int (MIXER_INPUT_COUNT K) - 1)),
          output_idx := of_int (constrain (uint (output_idx rule)) 0 (int (MIXER_OUTPUT_COUNT K) - 1)),
          offset := of_int (constrain (sint (offset rule)) (MIXER_INPUT_MIN K) (MIXER_INPUT_MAX K)),
          weight := of_int (constrain (sint (weight rule)) (MIXER_WEIGHT_MIN K) (MIXER_WEIGHT_MAX K))\<rparr>"

text \<open>Lines 334 to 343: the body of the loop that loads the rules.\<close>

definition mixerInit_rule :: "mixer_h \<Rightarrow> mixer_pg \<Rightarrow> nat \<Rightarrow> mixer_state \<Rightarrow> mixer_state" where
  "mixerInit_rule K pg i st =
     (let rule = mixerRules pg ! i
      in if oper rule \<noteq> 0 then
           st\<lparr>rules := (rules st)[i := mixerInit_slot K rule (rules st ! i)]\<rparr>
         else st)"

definition mixerInit :: "maths_h \<Rightarrow> mixer_h \<Rightarrow> mixer_pg \<Rightarrow> mixer_state \<Rightarrow> mixer_state" where
  "mixerInit M K pg st =
     (let st1 = foldl (\<lambda>s i. mixerInit_rule K pg i s) st [0..<MIXER_RULE_COUNT K];
          st2 = foldl (\<lambda>s i. s\<lparr>mixOverride := (mixOverride s)[i := of_int (MIXER_OVERRIDE_OFF K)]\<rparr>)
                  st1 [1..<MIXER_INPUT_COUNT K];
          st3 = st2\<lparr>tailMotorIdle := real_of_int (tail_motor_idle (mixerConfig pg)) / 1000\<rparr>
      in mixerInitSwash M pg st3)"

subsection \<open>Reset values and instances\<close>

text \<open>\<^verbatim>\<open>pgResetFn_mixerInputs\<close> (lines 67 to 74): the stabilised inputs get the full range.\<close>

definition pgResetFn_mixerInputs :: "mixer_h \<Rightarrow> mixerInput_t list \<Rightarrow> mixerInput_t list" where
  "pgResetFn_mixerInputs K inp =
     foldl (\<lambda>xs i. xs[i := (xs ! i)\<lparr>in_rate := 1000, in_min := - 1000, in_max := 1000\<rparr>])
       inp [MIXER_IN_STABILIZED_ROLL K..<Suc (MIXER_IN_STABILIZED_THROTTLE K)]"

text \<open>The reset template of \<^verbatim>\<open>mixerConfig\<close> (lines 55 to 61).\<close>

definition mixerConfig_reset :: mixerConfig_t where
  "mixerConfig_reset =
     \<lparr>main_rotor_dir = DIR_CW, tail_rotor_mode = TAIL_MODE_VARIABLE, tail_motor_idle = 0,
      swash_ring = 0, swash_phase = 0\<rparr>"

definition mixerRule_zero :: mixerRule_t where
  "mixerRule_zero = \<lparr>mode = 0, oper = 0, input_idx = 0, output_idx = 0, offset = 0, weight = 0\<rparr>"

definition mixerInput_zero :: mixerInput_t where
  "mixerInput_zero = \<lparr>in_rate = 0, in_min = 0, in_max = 0\<rparr>"

text \<open>The configuration after a reset of the three parameter groups.\<close>

definition mixer_pg_reset :: "mixer_h \<Rightarrow> mixer_pg" where
  "mixer_pg_reset K =
     \<lparr>mixerConfig = mixerConfig_reset,
      mixerRules = replicate (MIXER_RULE_COUNT K) mixerRule_zero,
      mixerInputs = pgResetFn_mixerInputs K (replicate (MIXER_INPUT_COUNT K) mixerInput_zero)\<rparr>"

text \<open>The statics at start-up: all of them are \<^verbatim>\<open>FAST_RAM_ZERO_INIT\<close>.\<close>

definition mixer_state_zero :: "mixer_h \<Rightarrow> mixer_state" where
  "mixer_state_zero K =
     \<lparr>rules = replicate (MIXER_RULE_COUNT K) mixerRule_zero,
      mixInput = replicate (MIXER_INPUT_COUNT K) 0,
      mixOutput = replicate (MIXER_OUTPUT_COUNT K) 0,
      mixOverride = replicate (MIXER_INPUT_COUNT K) 0,
      mixOutputMap = replicate (MIXER_OUTPUT_COUNT K) 0,
      mixSaturated = replicate (MIXER_INPUT_COUNT K) 0,
      cyclicTotal = 0, cyclicLimit = 0, tailMotorIdle = 0, tailMotorDirection = 0,
      phaseSin = 0, phaseCos = 0\<rparr>"

text \<open>
  An instance of the header, used where a theorem is evaluated at a concrete input:
  input 0 is the "none" input, inputs 1 to 5 are the stabilised roll, pitch, yaw,
  collective and throttle, and the overrides range over \<open>[-2500, 2500]\<close> with 2501 as
  the "off" value.
\<close>

definition mixer_h_example :: mixer_h where
  "mixer_h_example =
     \<lparr>MIXER_INPUT_COUNT = 29, MIXER_OUTPUT_COUNT = 13, MIXER_RULE_COUNT = 32,
      MIXER_OVERRIDE_MIN = - 2500, MIXER_OVERRIDE_MAX = 2500, MIXER_OVERRIDE_OFF = 2501,
      MIXER_SATURATION_TIME = 8,
      MIXER_INPUT_MIN = - 2500, MIXER_INPUT_MAX = 2500,
      MIXER_WEIGHT_MIN = - 10000, MIXER_WEIGHT_MAX = 10000,
      MIXER_IN_STABILIZED_ROLL = 1, MIXER_IN_STABILIZED_PITCH = 2,
      MIXER_IN_STABILIZED_YAW = 3, MIXER_IN_STABILIZED_THROTTLE = 5\<rparr>"

text \<open>
  Modelled from the spec: the sine and cosine that \<^verbatim>\<open>mixerInitSwash\<close> precomputes, taken
  exactly, and the conversion of decidegrees to radians.
\<close>

definition maths_exact :: maths_h where
  "maths_exact =
     \<lparr>sin_approx = sin, cos_approx = cos,
      DECIDEGREES_TO_RADIANS = (\<lambda>d. real_of_int d / 10 * (pi / 180))\<rparr>"

text \<open>The state after start-up: \<^verbatim>\<open>mixerInit\<close> on the zeroed statics, with the reset configuration.\<close>

definition mixer_state_example :: mixer_state where
  "mixer_state_example =
     mixerInit maths_exact mixer_h_example (mixer_pg_reset mixer_h_example)
       (mixer_state_zero mixer_h_example)"

subsection \<open>Notions of the specification\<close>

text \<open>
  The clamp of the specification's \<open>setInput\<close>: a value into \<open>[min/1000, max/1000]\<close>,
  the upper limit tested first as lines 109 to 119 do.
\<close>

definition mixerInputClamp :: "mixerInput_t \<Rightarrow> real \<Rightarrow> real" where
  "mixerInputClamp inp v =
     (if v > float_of_int16 (in_max inp) / 1000 then float_of_int16 (in_max inp) / 1000
      else if v < float_of_int16 (in_min inp) / 1000 then float_of_int16 (in_min inp) / 1000
      else v)"

text \<open>The reset configuration with the limits of the stabilised pitch exchanged.\<close>

definition mixer_pg_inverted :: "mixer_h \<Rightarrow> mixer_pg" where
  "mixer_pg_inverted K =
     (mixer_pg_reset K)\<lparr>mixerInputs := (mixerInputs (mixer_pg_reset K))
        [MIXER_IN_STABILIZED_PITCH K := \<lparr>in_rate = 1000, in_min = 1000, in_max = - 1000\<rparr>]\<rparr>"



text \<open>
  The reset configuration with the swash phase at 1800 decidegrees (half a turn), and the
  state after start-up with it and the stabilised roll set to 1.
\<close>

definition mixer_pg_half_turn :: mixer_pg where
  "mixer_pg_half_turn =
     (mixer_pg_reset mixer_h_example)\<lparr>mixerConfig := mixerConfig_reset\<lparr>swash_phase := 1800\<rparr>\<rparr>"

definition mixer_state_half_turn :: mixer_state where
  "mixer_state_half_turn =
     mixerSetInput mixer_h_example mixer_pg_half_turn True (MIXER_IN_STABILIZED_ROLL mixer_h_example) 1
       (mixerInit maths_exact mixer_h_example mixer_pg_half_turn (mixer_state_zero mixer_h_example))"

text \<open>
  The tail motor lineariser in the specification's words: the thrust linearisation of
  the bidirectional mode, \<open>sign(yaw) * sqrt(|yaw|)\<close>; the snap to \<open>idleDirection * idle\<close>
  of a throttle whose magnitude is below idle; and the spool-up gating.
\<close>

definition tailLinearBidirectional :: "real \<Rightarrow> real" where
  "tailLinearBidirectional yaw = sgn yaw * sqrt \<bar>yaw\<bar>"

definition tailIdleSnap :: "real \<Rightarrow> real \<Rightarrow> real \<Rightarrow> real" where
  "tailIdleSnap idle idleDirection t = (if \<bar>t\<bar> < idle then idleDirection * idle else t)"

definition tailSpoolup :: "bool \<Rightarrow> real \<Rightarrow> real \<Rightarrow> real" where
  "tailSpoolup spooledUp mainThrottle t =
     (if spooledUp then t
      else if mainThrottle < 1 / 100 then 0
      else if mainThrottle < 20 / 100 then t * (mainThrottle / (20 / 100))
      else t)"

text \<open>
  The idle direction as the specification words it: the sign of the last throttle of a
  history (oldest first) that is not zero, and 0 when there is none.
\<close>

definition lastNonzeroSign :: "real list \<Rightarrow> real" where
  "lastNonzeroSign ts = (case filter (\<lambda>t. t \<noteq> 0) ts of [] \<Rightarrow> 0 | t # us \<Rightarrow> sgn (last (t # us)))"

text \<open>
  The reset configuration with a bidirectional tail motor and the idle at 100 (0.1), the
  state after start-up with it, and three ticks of the tail stage, all armed: yaw demand
  \<open>-0.25\<close> spooled up; yaw demand 0 with the governor at 0 and not spooled up; yaw demand 0
  spooled up again.
\<close>

definition mixer_pg_bidirectional :: mixer_pg where
  "mixer_pg_bidirectional =
     (mixer_pg_reset mixer_h_example)
       \<lparr>mixerConfig := mixerConfig_reset\<lparr>tail_rotor_mode := TAIL_MODE_BIDIRECTIONAL,
                                            tail_motor_idle := 100\<rparr>\<rparr>"

definition mixer_state_bidirectional :: mixer_state where
  "mixer_state_bidirectional =
     mixerInit maths_exact mixer_h_example mixer_pg_bidirectional (mixer_state_zero mixer_h_example)"

definition mixer_tail_tick1 :: mixer_state where
  "mixer_tail_tick1 =
     mixerUpdateInputs_tail mixer_h_example mixer_pg_bidirectional True True True (- 1 / 4) (1 / 2)
       mixer_state_bidirectional"

definition mixer_tail_tick2 :: mixer_state where
  "mixer_tail_tick2 =
     mixerUpdateInputs_tail mixer_h_example mixer_pg_bidirectional True True False 0 0
       mixer_tail_tick1"

definition mixer_tail_tick3 :: mixer_state where
  "mixer_tail_tick3 =
     mixerUpdateInputs_tail mixer_h_example mixer_pg_bidirectional True True True 0 (1 / 2)
       mixer_tail_tick2"

text \<open>The third tick after its two inputs are set, before the tail update.\<close>

definition mixer_tail_tick3_inputs :: mixer_state where
  "mixer_tail_tick3_inputs =
     mixerSetInput mixer_h_example mixer_pg_bidirectional True
         (MIXER_IN_STABILIZED_THROTTLE mixer_h_example) (1 / 2)
       (mixerSetInput mixer_h_example mixer_pg_bidirectional True
         (MIXER_IN_STABILIZED_YAW mixer_h_example) 0 mixer_tail_tick2)"

text \<open>
  The reset configuration with a motorized tail and the idle at 100 (0.1), and the state
  after start-up with it once the input stage has set the yaw demand and the governor's
  throttle, armed.
\<close>

definition mixer_pg_motorized :: mixer_pg where
  "mixer_pg_motorized =
     (mixer_pg_reset mixer_h_example)
       \<lparr>mixerConfig := mixerConfig_reset\<lparr>tail_rotor_mode := TAIL_MODE_MOTORIZED,
                                            tail_motor_idle := 100\<rparr>\<rparr>"

definition mixer_motorized_inputs :: "real \<Rightarrow> real \<Rightarrow> mixer_state" where
  "mixer_motorized_inputs yawDemand governorOutput =
     mixerSetInput mixer_h_example mixer_pg_motorized True
         (MIXER_IN_STABILIZED_THROTTLE mixer_h_example) governorOutput
       (mixerSetInput mixer_h_example mixer_pg_motorized True
         (MIXER_IN_STABILIZED_YAW mixer_h_example) yawDemand
         (mixerInit maths_exact mixer_h_example mixer_pg_motorized (mixer_state_zero mixer_h_example)))"

text \<open>
  The state after start-up once the rule engine has applied an unconditional \<^verbatim>\<open>SET\<close> rule
  from the input \<open>src\<close> to output 4.
\<close>

definition mixer_state_contributor :: "uint8_t \<Rightarrow> mixer_state" where
  "mixer_state_contributor src =
     mixerUpdate_rule (mixer_pg_reset mixer_h_example) (flightModeMask 0)
       \<lparr>mode = 0, oper = MIXER_OP_SET, input_idx = src, output_idx = 4, offset = 0, weight = 1000\<rparr>
       mixer_state_example"

text \<open>
  The reset configuration with one persisted rule, in slot 2: \<^verbatim>\<open>SET\<close> from the stabilised
  pitch to output 4 with weight 1000.
\<close>

definition mixer_pg_one_rule :: mixer_pg where
  "mixer_pg_one_rule =
     (mixer_pg_reset mixer_h_example)\<lparr>mixerRules := (mixerRules (mixer_pg_reset mixer_h_example))
        [2 := \<lparr>mode = 0, oper = MIXER_OP_SET, input_idx = 2, output_idx = 4, offset = 0, weight = 1000\<rparr>]\<rparr>"

text \<open>
  A \<^verbatim>\<open>SET\<close> rule from the stabilised pitch (input 2) with weight 500 and the gate mask \<open>gate\<close>, and
  the state after start-up with the stabilised pitch set to 1 and three of these rules in
  the table: slot 0 gated on bit 17 (mode 1 inactive) to output 4, slot 1 gated on bit 1
  (mode 1 active) to output 5, slot 2 with gate 0 to output 6.
\<close>

definition mixer_rule_gated :: "uint32_t \<Rightarrow> uint8_t \<Rightarrow> mixerRule_t" where
  "mixer_rule_gated gate dst =
     \<lparr>mode = gate, oper = MIXER_OP_SET, input_idx = 2, output_idx = dst, offset = 0, weight = 500\<rparr>"

definition mixer_state_pitch :: mixer_state where
  "mixer_state_pitch =
     mixerSetInput mixer_h_example (mixer_pg_reset mixer_h_example) True 2 1 mixer_state_example"

definition mixer_state_gated :: mixer_state where
  "mixer_state_gated =
     mixer_state_pitch\<lparr>rules := mixer_rule_gated 131072 4 # mixer_rule_gated 2 5
                                  # mixer_rule_gated 0 6 # replicate 29 mixerRule_zero\<rparr>"

section \<open>Properties\<close>

subsection \<open>Conversions\<close>

lemma float_of_int16_le: "float_of_int16 a \<le> float_of_int16 b \<longleftrightarrow> sint a \<le> sint b"
  unfolding float_of_int16_def by (simp only: of_int_le_iff)

lemma unat_of_nat_uint8: "index < 256 \<Longrightarrow> unat (of_nat index :: uint8_t) = index"
  by (simp add: unat_of_nat)

lemma saturation_time_pos:
  assumes "0 < MIXER_SATURATION_TIME K" "MIXER_SATURATION_TIME K < 65536"
  shows "(0 :: uint16_t) < of_nat (MIXER_SATURATION_TIME K)"
proof -
  have "unat (of_nat (MIXER_SATURATION_TIME K) :: uint16_t) \<noteq> 0"
    using assms by (simp add: unat_of_nat)
  then show ?thesis
    by (simp add: word_greater_zero_iff unat_0_iff)
qed

subsection \<open>Loops that write one slot per index\<close>

text \<open>
  A loop over \<open>a \<le> i < b\<close> that rewrites slot \<open>i\<close> of an array from its old content, for the
  indices that satisfy \<open>P\<close>: each slot is written at most once, from its content at entry.
\<close>

lemma length_foldl_slot_update [simp]:
  "length (foldl (\<lambda>xs i. if P i then xs[i := f i (xs ! i)] else xs) xs ns) = length xs"
  by (induction ns arbitrary: xs) simp_all

lemma foldl_slot_update_nth:
  "foldl (\<lambda>xs i. if P i then xs[i := f i (xs ! i)] else xs) xs [a..<b] ! j =
     (if a \<le> j \<and> j < b \<and> j < length xs \<and> P j then f j (xs ! j) else xs ! j)"
proof (induction b arbitrary: j)
  case 0
  then show ?case by simp
next
  case (Suc b)
  let ?ys = "foldl (\<lambda>xs i. if P i then xs[i := f i (xs ! i)] else xs) xs [a..<b]"
  show ?case
  proof (cases "a \<le> b")
    case True
    have old: "?ys ! b = xs ! b"
      using Suc [of b] by simp
    have step: "foldl (\<lambda>xs i. if P i then xs[i := f i (xs ! i)] else xs) xs [a..<Suc b] =
                  (if P b then ?ys[b := f b (xs ! b)] else ?ys)"
      using True by (simp add: old)
    show ?thesis
    proof (cases "j = b")
      case eq: True
      show ?thesis
      proof (cases "b < length xs")
        case True
        then show ?thesis using eq \<open>a \<le> b\<close> Suc by (simp add: step)
      next
        case False
        then show ?thesis using eq Suc by (simp add: step list_update_beyond)
      qed
    next
      case False
      then show ?thesis using Suc True by (auto simp: step)
    qed
  next
    case False
    then show ?thesis by auto
  qed
qed

lemma length_foldl_list_update [simp]:
  "length (foldl (\<lambda>xs i. xs[i := f i]) xs ns) = length xs"
  by (induction ns arbitrary: xs) simp_all

lemma foldl_list_update_nth:
  "foldl (\<lambda>xs i. xs[i := f i]) xs [a..<b] ! j =
     (if a \<le> j \<and> j < b \<and> j < length xs then f j else xs ! j)"
  using foldl_slot_update_nth [where P = "\<lambda>i. True" and f = "\<lambda>i x. f i" and xs = xs]
  by simp

lemma length_foldl_cond_update [simp]:
  "length (foldl (\<lambda>xs i. if P i then xs[i := c] else xs) xs ns) = length xs"
  by (induction ns arbitrary: xs) simp_all

lemma foldl_cond_update_nth:
  "foldl (\<lambda>xs i. if P i then xs[i := c] else xs) xs [a..<b] ! j =
     (if a \<le> j \<and> j < b \<and> j < length xs \<and> P j then c else xs ! j)"
  using foldl_slot_update_nth [where P = P and f = "\<lambda>i x. c" and xs = xs]
  by simp

lemma mixerInit_override_loop:
  "foldl (\<lambda>s i. s\<lparr>mixOverride := (mixOverride s)[i := c]\<rparr>) st ns =
     st\<lparr>mixOverride := foldl (\<lambda>xs i. xs[i := c]) (mixOverride st) ns\<rparr>"
  by (induction ns arbitrary: st) simp_all

lemma mixerInit_rules_loop:
  "foldl (\<lambda>s i. mixerInit_rule K pg i s) st ns =
     st\<lparr>rules := foldl (\<lambda>rs i. if oper (mixerRules pg ! i) \<noteq> 0
                                then rs[i := mixerInit_slot K (mixerRules pg ! i) (rs ! i)] else rs)
                      (rules st) ns\<rparr>"
  by (induction ns arbitrary: st) (simp_all add: mixerInit_rule_def Let_def)

lemma mixerInit_fields:
  "mixInput (mixerInit M K pg st) = mixInput st"
  "mixOutput (mixerInit M K pg st) = mixOutput st"
  "mixOutputMap (mixerInit M K pg st) = mixOutputMap st"
  "mixSaturated (mixerInit M K pg st) = mixSaturated st"
  "tailMotorDirection (mixerInit M K pg st) = tailMotorDirection st"
  "tailMotorIdle (mixerInit M K pg st) = real_of_int (tail_motor_idle (mixerConfig pg)) / 1000"
  by (simp_all add: mixerInit_def mixerInitSwash_def Let_def mixerInit_override_loop mixerInit_rules_loop)

lemma mixerInit_mixOverride:
  "mixOverride (mixerInit M K pg st) ! i =
     (if 1 \<le> i \<and> i < MIXER_INPUT_COUNT K \<and> i < length (mixOverride st)
      then of_int (MIXER_OVERRIDE_OFF K) else mixOverride st ! i)"
  by (simp add: mixerInit_def mixerInitSwash_def Let_def mixerInit_override_loop
      mixerInit_rules_loop foldl_list_update_nth)

subsection \<open>What the setter and the loader leave alone\<close>

lemma mixInput_mixerSaturateInput [simp]:
  "mixInput (mixerSaturateInput K i st) = mixInput st"
  by (simp add: mixerSaturateInput_def)

lemma mixerSetInput_frame [simp]:
  "rules (mixerSetInput K pg armed index v st) = rules st"
  "mixOutput (mixerSetInput K pg armed index v st) = mixOutput st"
  "mixOverride (mixerSetInput K pg armed index v st) = mixOverride st"
  "mixOutputMap (mixerSetInput K pg armed index v st) = mixOutputMap st"
  "cyclicTotal (mixerSetInput K pg armed index v st) = cyclicTotal st"
  "cyclicLimit (mixerSetInput K pg armed index v st) = cyclicLimit st"
  "tailMotorIdle (mixerSetInput K pg armed index v st) = tailMotorIdle st"
  "tailMotorDirection (mixerSetInput K pg armed index v st) = tailMotorDirection st"
  "phaseSin (mixerSetInput K pg armed index v st) = phaseSin st"
  "phaseCos (mixerSetInput K pg armed index v st) = phaseCos st"
  "length (mixInput (mixerSetInput K pg armed index v st)) = length (mixInput st)"
  "length (mixSaturated (mixerSetInput K pg armed index v st)) = length (mixSaturated st)"
  by (simp_all add: mixerSetInput_def mixerSaturateInput_def Let_def)

lemma mixerSetInput_other:
  "j \<noteq> index \<Longrightarrow> mixInput (mixerSetInput K pg armed index v st) ! j = mixInput st ! j"
  by (simp add: mixerSetInput_def Let_def)

lemma mixerInit_swash:
  "phaseSin (mixerInit M K pg st) =
     (if swash_phase (mixerConfig pg) \<noteq> 0
      then sin_approx M (DECIDEGREES_TO_RADIANS M (swash_phase (mixerConfig pg))) else 0)"
  "phaseCos (mixerInit M K pg st) =
     (if swash_phase (mixerConfig pg) \<noteq> 0
      then cos_approx M (DECIDEGREES_TO_RADIANS M (swash_phase (mixerConfig pg))) else 1)"
  "cyclicLimit (mixerInit M K pg st) =
     (if swash_ring (mixerConfig pg) \<noteq> 0
      then 141 / 100 - real_of_int (swash_ring (mixerConfig pg)) * (41 / 10000) else 0)"
  by (simp_all add: mixerInit_def mixerInitSwash_def Let_def)

subsection \<open>The example instance\<close>

lemma example_lengths [simp]:
  "length (mixInput (mixer_state_zero mixer_h_example)) = 29"
  "length (mixSaturated (mixer_state_zero mixer_h_example)) = 29"
  "length (mixOverride (mixer_state_zero mixer_h_example)) = 29"
  "length (mixOutput (mixer_state_zero mixer_h_example)) = 13"
  "length (mixOutputMap (mixer_state_zero mixer_h_example)) = 13"
  "length (rules (mixer_state_zero mixer_h_example)) = 32"
  by (simp_all add: mixer_state_zero_def mixer_h_example_def)

lemma example_saturation_time:
  "0 < MIXER_SATURATION_TIME mixer_h_example \<and> MIXER_SATURATION_TIME mixer_h_example < 65536"
  "(of_nat (MIXER_SATURATION_TIME mixer_h_example) :: uint16_t) = 8"
  by (simp_all add: mixer_h_example_def)

lemma example_reset_pitch:
  "mixerInputs (mixer_pg_reset mixer_h_example) ! 2 =
     \<lparr>in_rate = 1000, in_min = - 1000, in_max = 1000\<rparr>"
  by code_simp

lemma example_state_fields [simp]:
  "length (mixInput mixer_state_example) = 29"
  "length (mixSaturated mixer_state_example) = 29"
  "length (mixOutput mixer_state_example) = 13"
  "length (mixOutputMap mixer_state_example) = 13"
  "tailMotorDirection mixer_state_example = 0"
  by (simp_all add: mixer_state_example_def mixerInit_fields mixer_state_zero_def
      mixer_h_example_def)

lemma example_state_override:
  "mixOverride mixer_state_example ! 2 = 2501"
  by (simp add: mixer_state_example_def mixerInit_mixOverride)
     (simp add: mixer_h_example_def mixer_state_zero_def)

lemma example_indices:
  "MIXER_IN_STABILIZED_ROLL mixer_h_example \<noteq> MIXER_IN_STABILIZED_PITCH mixer_h_example"
  "MIXER_IN_STABILIZED_ROLL mixer_h_example < 29"
  "MIXER_IN_STABILIZED_PITCH mixer_h_example < 29"
  "MIXER_IN_STABILIZED_YAW mixer_h_example < 29"
  "MIXER_IN_STABILIZED_THROTTLE mixer_h_example < 29"
  "MIXER_IN_STABILIZED_YAW mixer_h_example \<noteq> MIXER_IN_STABILIZED_THROTTLE mixer_h_example"
  by (simp_all add: mixer_h_example_def)

lemma example_reset_stabilised:
  "mixerInputs (mixer_pg_reset mixer_h_example) ! MIXER_IN_STABILIZED_ROLL mixer_h_example =
     \<lparr>in_rate = 1000, in_min = - 1000, in_max = 1000\<rparr>"
  "mixerInputs (mixer_pg_reset mixer_h_example) ! MIXER_IN_STABILIZED_PITCH mixer_h_example =
     \<lparr>in_rate = 1000, in_min = - 1000, in_max = 1000\<rparr>"
  "mixerInputs (mixer_pg_reset mixer_h_example) ! MIXER_IN_STABILIZED_YAW mixer_h_example =
     \<lparr>in_rate = 1000, in_min = - 1000, in_max = 1000\<rparr>"
  "mixerInputs (mixer_pg_reset mixer_h_example) ! MIXER_IN_STABILIZED_THROTTLE mixer_h_example =
     \<lparr>in_rate = 1000, in_min = - 1000, in_max = 1000\<rparr>"
  by code_simp+

subsection \<open>Rule engine: one slot and a run of slots\<close>

text \<open>Lines 276 to 280 leave every output and its bitmap at zero, and nothing else changed.\<close>

lemma mixerResetOutputs_loop:
  "foldl (\<lambda>s i. s\<lparr>mixOutput := (mixOutput s)[i := 0],
                  mixOutputMap := (mixOutputMap s)[i := 0]\<rparr>) st ns =
     st\<lparr>mixOutput := foldl (\<lambda>xs i. xs[i := 0]) (mixOutput st) ns,
        mixOutputMap := foldl (\<lambda>xs i. xs[i := 0]) (mixOutputMap st) ns\<rparr>"
  by (induction ns arbitrary: st) simp_all

lemma mixerResetOutputs_frame [simp]:
  "rules (mixerResetOutputs K st) = rules st"
  "mixInput (mixerResetOutputs K st) = mixInput st"
  "length (mixOutput (mixerResetOutputs K st)) = length (mixOutput st)"
  "length (mixOutputMap (mixerResetOutputs K st)) = length (mixOutputMap st)"
  by (simp_all add: mixerResetOutputs_def mixerResetOutputs_loop)

lemma mixerResetOutputs_nth:
  "mixOutput (mixerResetOutputs K st) ! d =
     (if d < MIXER_OUTPUT_COUNT K \<and> d < length (mixOutput st) then 0 else mixOutput st ! d)"
  "mixOutputMap (mixerResetOutputs K st) ! d =
     (if d < MIXER_OUTPUT_COUNT K \<and> d < length (mixOutputMap st) then 0 else mixOutputMap st ! d)"
  using foldl_list_update_nth [where f = "\<lambda>i. 0 :: real" and xs = "mixOutput st" and a = 0
      and b = "MIXER_OUTPUT_COUNT K" and j = d]
    foldl_list_update_nth [where f = "\<lambda>i. 0 :: uint32_t" and xs = "mixOutputMap st" and a = 0
      and b = "MIXER_OUTPUT_COUNT K" and j = d]
  by (simp_all add: mixerResetOutputs_def mixerResetOutputs_loop)

lemma mixerUpdate_rule_frame [simp]:
  "rules (mixerUpdate_rule pg fmask r st) = rules st"
  "mixInput (mixerUpdate_rule pg fmask r st) = mixInput st"
  "length (mixOutput (mixerUpdate_rule pg fmask r st)) = length (mixOutput st)"
  "length (mixOutputMap (mixerUpdate_rule pg fmask r st)) = length (mixOutputMap st)"
  by (simp_all add: mixerUpdate_rule_def Let_def)

lemma mixerRuleOutput_cong:
  "mixInput s = mixInput st \<Longrightarrow> mixerRuleOutput pg s r = mixerRuleOutput pg st r"
  by (simp add: mixerRuleOutput_def)

lemma mixerUpdate_rule_list_frame [simp]:
  "rules (foldl (\<lambda>s r. mixerUpdate_rule pg fmask r s) st rs) = rules st"
  "mixInput (foldl (\<lambda>s r. mixerUpdate_rule pg fmask r s) st rs) = mixInput st"
  "length (mixOutput (foldl (\<lambda>s r. mixerUpdate_rule pg fmask r s) st rs)) = length (mixOutput st)"
  "length (mixOutputMap (foldl (\<lambda>s r. mixerUpdate_rule pg fmask r s) st rs)) = length (mixOutputMap st)"
  by (induction rs arbitrary: st) simp_all

lemma mixerUpdate_rules_take:
  "n \<le> length (rules st) \<Longrightarrow>
   foldl (\<lambda>s i. mixerUpdate_rule pg fmask (rules s ! i) s) st [0..<n] =
   foldl (\<lambda>s r. mixerUpdate_rule pg fmask r s) st (take n (rules st))"
proof (induction n)
  case 0
  then show ?case by simp
next
  case (Suc n)
  then have "n < length (rules st)" by simp
  then show ?case
    using Suc by (simp add: take_Suc_conv_app_nth)
qed

lemma mixerUpdate_rules_table_order:
  "length (rules st) = MIXER_RULE_COUNT K \<Longrightarrow>
   mixerUpdate_rules K pg fmask st = foldl (\<lambda>s r. mixerUpdate_rule pg fmask r s) st (rules st)"
  by (simp add: mixerUpdate_rules_def mixerUpdate_rules_take)

lemma mixerUpdate_rule_other:
  assumes "\<not> (mixerRuleApplies fmask r \<and> unat (output_idx r) = d)"
  shows "mixOutput (mixerUpdate_rule pg fmask r st) ! d = mixOutput st ! d"
    and "mixOutputMap (mixerUpdate_rule pg fmask r st) ! d = mixOutputMap st ! d"
  using assms by (auto simp: mixerUpdate_rule_def Let_def)

lemma mixerUpdate_rule_list_other:
  assumes "\<forall>r \<in> set rs. \<not> (mixerRuleApplies fmask r \<and> unat (output_idx r) = d)"
  shows "mixOutput (foldl (\<lambda>s r. mixerUpdate_rule pg fmask r s) st rs) ! d = mixOutput st ! d"
    and "mixOutputMap (foldl (\<lambda>s r. mixerUpdate_rule pg fmask r s) st rs) ! d = mixOutputMap st ! d"
  using assms by (induction rs arbitrary: st) (simp_all add: mixerUpdate_rule_other)

lemma mixerUpdate_rule_SET:
  assumes "mixerRuleApplies fmask r" "oper r = MIXER_OP_SET"
      and "unat (output_idx r) < length (mixOutput st)"
      and "unat (output_idx r) < length (mixOutputMap st)"
  shows "mixOutput (mixerUpdate_rule pg fmask r st) ! unat (output_idx r) = mixerRuleOutput pg st r"
    and "mixOutputMap (mixerUpdate_rule pg fmask r st) ! unat (output_idx r) = BIT (unat (input_idx r))"
  using assms by (simp_all add: mixerUpdate_rule_def Let_def)

lemma mixerUpdate_rule_ADD:
  assumes "mixerRuleApplies fmask r" "oper r = MIXER_OP_ADD"
      and "unat (output_idx r) < length (mixOutput st)"
      and "unat (output_idx r) < length (mixOutputMap st)"
  shows "mixOutput (mixerUpdate_rule pg fmask r st) ! unat (output_idx r)
           = mixOutput st ! unat (output_idx r) + mixerRuleOutput pg st r"
    and "mixOutputMap (mixerUpdate_rule pg fmask r st) ! unat (output_idx r)
           = mixOutputMap st ! unat (output_idx r) OR BIT (unat (input_idx r))"
  using assms
  by (simp_all add: mixerUpdate_rule_def Let_def MIXER_OP_ADD_def MIXER_OP_SET_def)

lemma mixerUpdate_rule_MUL:
  assumes "mixerRuleApplies fmask r" "oper r = MIXER_OP_MUL"
      and "unat (output_idx r) < length (mixOutput st)"
      and "unat (output_idx r) < length (mixOutputMap st)"
  shows "mixOutput (mixerUpdate_rule pg fmask r st) ! unat (output_idx r)
           = mixOutput st ! unat (output_idx r) * mixerRuleOutput pg st r"
    and "mixOutputMap (mixerUpdate_rule pg fmask r st) ! unat (output_idx r)
           = mixOutputMap st ! unat (output_idx r) OR BIT (unat (input_idx r))"
  using assms
  by (simp_all add: mixerUpdate_rule_def Let_def MIXER_OP_ADD_def MIXER_OP_SET_def MIXER_OP_MUL_def)


subsection \<open>Input registry: limits and saturation\<close>

lemma mixerSetInput_stored:
  assumes "index < length (mixInput st)"
  shows "mixInput (mixerSetInput K pg armed index v st) ! index =
         mixerInputClamp (mixerInputs pg ! index) (mixerOverrideValue K armed index v st)"
  using assms by (simp add: mixerSetInput_def mixerInputClamp_def Let_def)

lemma mixerInputClamp_range:
  assumes "sint (in_min inp) \<le> sint (in_max inp)"
  shows "float_of_int16 (in_min inp) / 1000 \<le> mixerInputClamp inp v"
    and "mixerInputClamp inp v \<le> float_of_int16 (in_max inp) / 1000"
  using assms float_of_int16_le [of "in_min inp" "in_max inp"]
  by (auto simp: mixerInputClamp_def)

lemma mixerSetInput_clamped_counter:
  assumes "index < length (mixSaturated st)" "index < 256"
      and "mixerOverrideValue K armed index v st > float_of_int16 (in_max (mixerInputs pg ! index)) / 1000
         \<or> mixerOverrideValue K armed index v st < float_of_int16 (in_min (mixerInputs pg ! index)) / 1000"
  shows "mixSaturated (mixerSetInput K pg armed index v st) ! index
           = of_nat (MIXER_SATURATION_TIME K)"
  using assms by (auto simp: mixerSetInput_def mixerSaturateInput_def Let_def unat_of_nat_uint8)

text \<open>
  Claim C1, as the code has it. Let \<open>index\<close> be an input of the arrays (and below 256,
  the range of the \<^verbatim>\<open>uint8_t\<close> that \<^verbatim>\<open>mixerSaturateInput\<close> takes). After
  \<^verbatim>\<open>mixerSetInput\<close>, if the input's configured \<open>min\<close> is not above its \<open>max\<close>, the stored
  value lies within \<open>[min/1000, max/1000]\<close>. If the value (after the override) was above
  \<open>max/1000\<close> or below \<open>min/1000\<close>, the input's saturation counter is
  \<^verbatim>\<open>MIXER_SATURATION_TIME\<close>, and \<^verbatim>\<open>mixerSaturated\<close> holds of the input when that
  constant is a positive \<^verbatim>\<open>uint16_t\<close>.
\<close>

theorem mixerSetInput_range_saturation:
  assumes "index < length (mixInput st)" and "index < length (mixSaturated st)"
      and "index < 256"
  shows "(sint (in_min (mixerInputs pg ! index)) \<le> sint (in_max (mixerInputs pg ! index)) \<longrightarrow>
            float_of_int16 (in_min (mixerInputs pg ! index)) / 1000
              \<le> mixInput (mixerSetInput K pg armed index v st) ! index
          \<and> mixInput (mixerSetInput K pg armed index v st) ! index
              \<le> float_of_int16 (in_max (mixerInputs pg ! index)) / 1000)
       \<and> (mixerOverrideValue K armed index v st > float_of_int16 (in_max (mixerInputs pg ! index)) / 1000
          \<or> mixerOverrideValue K armed index v st < float_of_int16 (in_min (mixerInputs pg ! index)) / 1000 \<longrightarrow>
            mixSaturated (mixerSetInput K pg armed index v st) ! index
              = of_nat (MIXER_SATURATION_TIME K)
          \<and> (0 < MIXER_SATURATION_TIME K \<and> MIXER_SATURATION_TIME K < 65536 \<longrightarrow>
               mixerSaturated (of_nat index) (mixerSetInput K pg armed index v st)))"
proof -
  let ?st' = "mixerSetInput K pg armed index v st"
  have range: "sint (in_min (mixerInputs pg ! index)) \<le> sint (in_max (mixerInputs pg ! index)) \<longrightarrow>
            float_of_int16 (in_min (mixerInputs pg ! index)) / 1000 \<le> mixInput ?st' ! index
          \<and> mixInput ?st' ! index \<le> float_of_int16 (in_max (mixerInputs pg ! index)) / 1000"
    using mixerInputClamp_range [of "mixerInputs pg ! index"] assms(1)
    by (simp add: mixerSetInput_stored)
  have sat: "mixerSaturated (of_nat index) ?st'"
    if "mixSaturated ?st' ! index = of_nat (MIXER_SATURATION_TIME K)"
       "0 < MIXER_SATURATION_TIME K" "MIXER_SATURATION_TIME K < 65536"
    using that saturation_time_pos [of K] assms(3)
    by (simp add: mixerSaturated_def unat_of_nat_uint8)
  show ?thesis
    using range sat mixerSetInput_clamped_counter [OF assms(2,3)]
    by blast
qed

text \<open>
  The theorem at the reset configuration, armed, for the stabilised pitch (input 2) and
  the raw value 1.5: the value is clamped to 1 and the counter is 8.
\<close>

theorem mixerSetInput_range_saturation_witness:
  "(2::nat) < length (mixInput (mixer_state_zero mixer_h_example))
   \<and> (2::nat) < length (mixSaturated (mixer_state_zero mixer_h_example))
   \<and> sint (in_min (mixerInputs (mixer_pg_reset mixer_h_example) ! 2))
       \<le> sint (in_max (mixerInputs (mixer_pg_reset mixer_h_example) ! 2))
   \<and> mixerOverrideValue mixer_h_example True 2 (3 / 2) (mixer_state_zero mixer_h_example)
       > float_of_int16 (in_max (mixerInputs (mixer_pg_reset mixer_h_example) ! 2)) / 1000
   \<and> mixInput (mixerSetInput mixer_h_example (mixer_pg_reset mixer_h_example) True 2 (3 / 2)
         (mixer_state_zero mixer_h_example)) ! 2 \<le> 1
   \<and> mixSaturated (mixerSetInput mixer_h_example (mixer_pg_reset mixer_h_example) True 2 (3 / 2)
         (mixer_state_zero mixer_h_example)) ! 2 = 8
   \<and> mixerSaturated 2 (mixerSetInput mixer_h_example (mixer_pg_reset mixer_h_example) True 2 (3 / 2)
         (mixer_state_zero mixer_h_example))"
proof -
  let ?K = mixer_h_example
  let ?pg = "mixer_pg_reset mixer_h_example"
  let ?st = "mixer_state_zero mixer_h_example"
  let ?st' = "mixerSetInput ?K ?pg True 2 (3 / 2) ?st"
  have l1: "(2::nat) < length (mixInput ?st)" and l2: "(2::nat) < length (mixSaturated ?st)"
    and l3: "(2::nat) < 256"
    by simp_all
  have ord: "sint (in_min (mixerInputs ?pg ! 2)) \<le> sint (in_max (mixerInputs ?pg ! 2))"
    by (simp add: example_reset_pitch)
  have over: "mixerOverrideValue ?K True 2 (3 / 2) ?st
                > float_of_int16 (in_max (mixerInputs ?pg ! 2)) / 1000"
    by (simp add: example_reset_pitch mixerOverrideValue_def float_of_int16_def)
  have imax: "float_of_int16 (in_max (mixerInputs ?pg ! 2)) / 1000 = 1"
    by (simp add: example_reset_pitch float_of_int16_def)
  note T = mixerSetInput_range_saturation [OF l1 l2 l3, of ?pg ?K True "3 / 2"]
  have "mixInput ?st' ! 2 \<le> 1"
    using T ord imax by simp
  moreover have "mixSaturated ?st' ! 2 = 8"
    using T over example_saturation_time(2) by simp
  moreover have "mixerSaturated 2 ?st'"
    using T over example_saturation_time(1) by simp
  ultimately show ?thesis
    using l1 l2 ord over by blast
qed

text \<open>
  The claim as the specification words it fails where the configured \<open>min\<close> is above
  \<open>max\<close>: with \<open>min = 1000\<close> and \<open>max = -1000\<close> for the stabilised pitch, the raw value 0
  is above \<open>max/1000\<close>, so \<open>-1\<close> is stored, which is below \<open>min/1000 = 1\<close>.
\<close>

theorem mixerSetInput_range_counterexample:
  "\<not> (float_of_int16 (in_min (mixerInputs (mixer_pg_inverted mixer_h_example) ! 2)) / 1000
        \<le> mixInput (mixerSetInput mixer_h_example (mixer_pg_inverted mixer_h_example) True 2 0
               (mixer_state_zero mixer_h_example)) ! 2
     \<and> mixInput (mixerSetInput mixer_h_example (mixer_pg_inverted mixer_h_example) True 2 0
               (mixer_state_zero mixer_h_example)) ! 2
        \<le> float_of_int16 (in_max (mixerInputs (mixer_pg_inverted mixer_h_example) ! 2)) / 1000)"
  by code_simp

subsection \<open>Input registry: the override\<close>

lemma mixerOverrideValue_disarmed_valid:
  assumes "\<not> armed"
      and "MIXER_OVERRIDE_MIN K \<le> sint (mixOverride st ! index)"
      and "sint (mixOverride st ! index) \<le> MIXER_OVERRIDE_MAX K"
  shows "mixerOverrideValue K armed index v st = float_of_int16 (mixOverride st ! index) / 1000"
  using assms by (simp add: mixerOverrideValue_def)

lemma mixerOverrideValue_disarmed_sentinel:
  assumes "\<not> armed"
      and "sint (mixOverride st ! index) < MIXER_OVERRIDE_MIN K
         \<or> MIXER_OVERRIDE_MAX K < sint (mixOverride st ! index)"
  shows "mixerOverrideValue K armed index v st = v"
  using assms by (auto simp: mixerOverrideValue_def)

lemma mixerOverrideValue_armed: "mixerOverrideValue K True index v st = v"
  by (simp add: mixerOverrideValue_def)

lemma mixerSetInput_cong_value:
  assumes "mixerOverrideValue K armed index v st = mixerOverrideValue K armed' index v' st"
  shows "mixerSetInput K pg armed index v st = mixerSetInput K pg armed' index v' st"
  using assms by (simp add: mixerSetInput_def)

lemma mixerSetInput_armed_override:
  "mixerSetInput K pg True index v (st\<lparr>mixOverride := ovs\<rparr>) =
   (mixerSetInput K pg True index v st)\<lparr>mixOverride := ovs\<rparr>"
  by (simp add: mixerSetInput_def mixerOverrideValue_def mixerSaturateInput_def Let_def)

text \<open>
  Claim C2. In \<^verbatim>\<open>mixerSetInput\<close>, for an input \<open>index\<close> of the array:
  \<^item> disarmed, with the override of \<open>index\<close> within
    \<open>[MIXER_OVERRIDE_MIN, MIXER_OVERRIDE_MAX]\<close>: the stored value is the clamp of
    \<open>override/1000\<close>, and the call gives the same state for every raw value;
  \<^item> disarmed, with the override outside that range: the stored value is the clamp of
    the raw value, and the call does what it does when armed;
  \<^item> armed: the stored value is the clamp of the raw value, and the call does the same
    whatever the override array holds.
\<close>

theorem mixerSetInput_override:
  assumes "index < length (mixInput st)"
  shows "(\<not> armed \<and> MIXER_OVERRIDE_MIN K \<le> sint (mixOverride st ! index)
             \<and> sint (mixOverride st ! index) \<le> MIXER_OVERRIDE_MAX K \<longrightarrow>
            mixInput (mixerSetInput K pg armed index v st) ! index =
              mixerInputClamp (mixerInputs pg ! index) (float_of_int16 (mixOverride st ! index) / 1000)
          \<and> (\<forall>v'. mixerSetInput K pg armed index v' st = mixerSetInput K pg armed index v st))
       \<and> (\<not> armed \<and> (sint (mixOverride st ! index) < MIXER_OVERRIDE_MIN K
             \<or> MIXER_OVERRIDE_MAX K < sint (mixOverride st ! index)) \<longrightarrow>
            mixInput (mixerSetInput K pg armed index v st) ! index =
              mixerInputClamp (mixerInputs pg ! index) v
          \<and> mixerSetInput K pg armed index v st = mixerSetInput K pg True index v st)
       \<and> (armed \<longrightarrow>
            mixInput (mixerSetInput K pg armed index v st) ! index =
              mixerInputClamp (mixerInputs pg ! index) v
          \<and> (\<forall>ovs. mixerSetInput K pg armed index v (st\<lparr>mixOverride := ovs\<rparr>) =
                (mixerSetInput K pg armed index v st)\<lparr>mixOverride := ovs\<rparr>))"
proof (intro conjI impI allI)
  assume a: "\<not> armed \<and> MIXER_OVERRIDE_MIN K \<le> sint (mixOverride st ! index)
               \<and> sint (mixOverride st ! index) \<le> MIXER_OVERRIDE_MAX K"
  then show "mixInput (mixerSetInput K pg armed index v st) ! index =
      mixerInputClamp (mixerInputs pg ! index) (float_of_int16 (mixOverride st ! index) / 1000)"
    using assms by (simp add: mixerSetInput_stored mixerOverrideValue_disarmed_valid)
  fix v'
  show "mixerSetInput K pg armed index v' st = mixerSetInput K pg armed index v st"
    using a by (intro mixerSetInput_cong_value) (simp add: mixerOverrideValue_disarmed_valid)
next
  assume a: "\<not> armed \<and> (sint (mixOverride st ! index) < MIXER_OVERRIDE_MIN K
               \<or> MIXER_OVERRIDE_MAX K < sint (mixOverride st ! index))"
  then have ov: "mixerOverrideValue K armed index v st = v"
    by (simp add: mixerOverrideValue_disarmed_sentinel)
  show "mixInput (mixerSetInput K pg armed index v st) ! index =
      mixerInputClamp (mixerInputs pg ! index) v"
    using assms ov by (simp add: mixerSetInput_stored)
  show "mixerSetInput K pg armed index v st = mixerSetInput K pg True index v st"
    using ov by (intro mixerSetInput_cong_value) (simp add: mixerOverrideValue_armed)
next
  assume a: armed
  show "mixInput (mixerSetInput K pg armed index v st) ! index =
      mixerInputClamp (mixerInputs pg ! index) v"
    using assms a by (simp add: mixerSetInput_stored mixerOverrideValue_armed)
  fix ovs
  show "mixerSetInput K pg armed index v (st\<lparr>mixOverride := ovs\<rparr>) =
        (mixerSetInput K pg armed index v st)\<lparr>mixOverride := ovs\<rparr>"
    using a by (simp add: mixerSetInput_armed_override)
qed

text \<open>
  The theorem after start-up with the reset configuration, for the stabilised pitch
  (input 2) and the raw value 0.9: with the override 500 set and disarmed, 0.5 is stored
  whatever the raw value; with the override off (2501) and disarmed, 0.9 is stored; armed,
  0.9 is stored although the override is 500.
\<close>

theorem mixerSetInput_override_witness:
  "(2::nat) < length (mixInput (mixerSetOverride 2 500 mixer_state_example))
   \<and> MIXER_OVERRIDE_MIN mixer_h_example \<le> sint (mixOverride (mixerSetOverride 2 500 mixer_state_example) ! 2)
   \<and> sint (mixOverride (mixerSetOverride 2 500 mixer_state_example) ! 2) \<le> MIXER_OVERRIDE_MAX mixer_h_example
   \<and> MIXER_OVERRIDE_MAX mixer_h_example < sint (mixOverride mixer_state_example ! 2)
   \<and> mixInput (mixerSetInput mixer_h_example (mixer_pg_reset mixer_h_example) False 2 (9 / 10)
         (mixerSetOverride 2 500 mixer_state_example)) ! 2 = 1 / 2
   \<and> mixerSetInput mixer_h_example (mixer_pg_reset mixer_h_example) False 2 (- 3 / 10)
         (mixerSetOverride 2 500 mixer_state_example)
       = mixerSetInput mixer_h_example (mixer_pg_reset mixer_h_example) False 2 (9 / 10)
         (mixerSetOverride 2 500 mixer_state_example)
   \<and> mixInput (mixerSetInput mixer_h_example (mixer_pg_reset mixer_h_example) False 2 (9 / 10)
         mixer_state_example) ! 2 = 9 / 10
   \<and> mixInput (mixerSetInput mixer_h_example (mixer_pg_reset mixer_h_example) True 2 (9 / 10)
         (mixerSetOverride 2 500 mixer_state_example)) ! 2 = 9 / 10"
proof -
  let ?K = mixer_h_example
  let ?pg = "mixer_pg_reset mixer_h_example"
  let ?stI = mixer_state_example
  let ?stO = "mixerSetOverride 2 500 mixer_state_example"
  have lenI: "(2::nat) < length (mixInput ?stI)" and lenO: "(2::nat) < length (mixInput ?stO)"
    by (simp_all add: mixerSetOverride_def)
  have ovO: "mixOverride ?stO ! 2 = 500"
    by (simp add: mixerSetOverride_def mixer_state_example_def mixerInit_def
        mixerInitSwash_def Let_def mixerInit_override_loop mixerInit_rules_loop
        mixer_state_zero_def mixer_h_example_def)
  have valid: "MIXER_OVERRIDE_MIN ?K \<le> sint (mixOverride ?stO ! 2)
               \<and> sint (mixOverride ?stO ! 2) \<le> MIXER_OVERRIDE_MAX ?K"
    by (simp add: ovO mixer_h_example_def)
  have off: "MIXER_OVERRIDE_MAX ?K < sint (mixOverride ?stI ! 2)"
    by (simp add: example_state_override mixer_h_example_def)
  have clamp1: "mixerInputClamp (mixerInputs ?pg ! 2) (float_of_int16 (mixOverride ?stO ! 2) / 1000) = 1 / 2"
    by (simp add: ovO example_reset_pitch mixerInputClamp_def float_of_int16_def)
  have clamp2: "mixerInputClamp (mixerInputs ?pg ! 2) (9 / 10) = 9 / 10"
    by (simp add: example_reset_pitch mixerInputClamp_def float_of_int16_def)
  note TO = mixerSetInput_override [OF lenO, of False ?K ?pg "9 / 10"]
  note TI = mixerSetInput_override [OF lenI, of False ?K ?pg "9 / 10"]
  note TA = mixerSetInput_override [OF lenO, of True ?K ?pg "9 / 10"]
  have "mixInput (mixerSetInput ?K ?pg False 2 (9 / 10) ?stO) ! 2 =
          mixerInputClamp (mixerInputs ?pg ! 2) (float_of_int16 (mixOverride ?stO ! 2) / 1000)"
    using TO valid by blast
  then have "mixInput (mixerSetInput ?K ?pg False 2 (9 / 10) ?stO) ! 2 = 1 / 2"
    by (simp only: clamp1)
  moreover have "mixerSetInput ?K ?pg False 2 (- 3 / 10) ?stO = mixerSetInput ?K ?pg False 2 (9 / 10) ?stO"
    using TO valid by blast
  moreover have "mixInput (mixerSetInput ?K ?pg False 2 (9 / 10) ?stI) ! 2 =
          mixerInputClamp (mixerInputs ?pg ! 2) (9 / 10)"
    using TI off by blast
  then have "mixInput (mixerSetInput ?K ?pg False 2 (9 / 10) ?stI) ! 2 = 9 / 10"
    by (simp only: clamp2)
  moreover have "mixInput (mixerSetInput ?K ?pg True 2 (9 / 10) ?stO) ! 2 =
          mixerInputClamp (mixerInputs ?pg ! 2) (9 / 10)"
    using TA by blast
  then have "mixInput (mixerSetInput ?K ?pg True 2 (9 / 10) ?stO) ! 2 = 9 / 10"
    by (simp only: clamp2)
  ultimately show ?thesis
    using lenO valid off by blast
qed

subsection \<open>Rule engine: the flight mode mask\<close>

lemma bit_uint16_less: "bit f n \<Longrightarrow> n < 16" for f :: uint16_t
  by (drule bit_imp_le_length) simp

lemma bit_uint32_less: "bit m n \<Longrightarrow> n < 32" for m :: uint32_t
  by (drule bit_imp_le_length) simp

lemma bit_flightModeMask:
  "bit (flightModeMask f) n \<longleftrightarrow> (n < 16 \<and> bit f n) \<or> (16 \<le> n \<and> n < 32 \<and> \<not> bit f (n - 16))"
  by (auto simp: flightModeMask_def bit_simps dest: bit_uint16_less)

lemma flightModeMask_lower: "take_bit 16 (flightModeMask f) = ucast f"
  by (rule bit_word_eqI) (auto simp: bit_simps bit_flightModeMask dest: bit_uint16_less)

lemma flightModeMask_upper: "drop_bit 16 (flightModeMask f) = ucast (NOT f)"
  by (rule bit_word_eqI) (auto simp: bit_simps bit_flightModeMask dest: bit_uint16_less)

lemma word_and_nonzero_iff:
  "a AND b \<noteq> 0 \<longleftrightarrow> (\<exists>n. bit a n \<and> bit b n)" for a b :: "'a::len word"
  by (auto simp: bit_eq_iff bit_simps dest: bit_imp_le_length)

text \<open>
  What the two halves mean for a rule: it applies when its gate is 0, when the gate
  names one of the 16 modes that is active (lower half), or when it names one that is
  inactive (upper half).
\<close>

lemma mixerRuleApplies_flightModeMask:
  "mixerRuleApplies (flightModeMask f) r \<longleftrightarrow>
     oper r \<noteq> 0 \<and>
     (mode r = 0 \<or> (\<exists>n<16. bit (mode r) n \<and> bit f n) \<or> (\<exists>n<16. bit (mode r) (n + 16) \<and> \<not> bit f n))"
proof -
  have "(\<exists>n. bit (mode r) n \<and> bit (flightModeMask f) n) \<longleftrightarrow>
        (\<exists>n<16. bit (mode r) n \<and> bit f n) \<or> (\<exists>n<16. bit (mode r) (n + 16) \<and> \<not> bit f n)"
    (is "?L \<longleftrightarrow> ?A \<or> ?B")
  proof
    assume ?L
    then obtain n where n: "bit (mode r) n" "bit (flightModeMask f) n" by blast
    then consider "n < 16" "bit f n" | "16 \<le> n" "n < 32" "\<not> bit f (n - 16)"
      by (auto simp: bit_flightModeMask)
    then show "?A \<or> ?B"
    proof cases
      case 1
      then show ?thesis using n by blast
    next
      case 2
      then have "n - 16 < 16" "bit (mode r) ((n - 16) + 16)" using n by simp_all
      then show ?thesis using 2 by blast
    qed
  next
    assume "?A \<or> ?B"
    then show ?L
    proof
      assume ?A
      then show ?L by (auto simp: bit_flightModeMask)
    next
      assume ?B
      then obtain n where "n < 16" "bit (mode r) (n + 16)" "\<not> bit f n" by blast
      then have "bit (mode r) (n + 16) \<and> bit (flightModeMask f) (n + 16)"
        by (simp add: bit_flightModeMask)
      then show ?L by blast
    qed
  qed
  then show ?thesis
    by (simp add: mixerRuleApplies_def word_and_nonzero_iff)
qed

lemma mixerUpdate_rule_skipped:
  "\<not> mixerRuleApplies fmask r \<Longrightarrow> mixerUpdate_rule pg fmask r st = st"
  by (simp add: mixerUpdate_rule_def)

text \<open>
  One rule \<open>r\<close> with the destination \<open>d\<close>, which no other slot of the table writes, on
  outputs that start at zero: what the run of the table leaves in \<open>d\<close>.
\<close>

lemma mixerUpdate_rule_list_single:
  assumes r: "oper r = MIXER_OP_SET \<or> oper r = MIXER_OP_ADD \<or> oper r = MIXER_OP_MUL"
             "unat (output_idx r) = d"
      and d: "d < length (mixOutput st)" "d < length (mixOutputMap st)"
      and zero: "mixOutput st ! d = 0" "mixOutputMap st ! d = 0"
      and others: "\<forall>x \<in> set pre \<union> set post. \<not> (mixerRuleApplies fmask x \<and> unat (output_idx x) = d)"
  shows "mixOutput (foldl (\<lambda>s r. mixerUpdate_rule pg fmask r s) st (pre @ r # post)) ! d =
           (if mixerRuleApplies fmask r
            then (if oper r = MIXER_OP_MUL then 0 else mixerRuleOutput pg st r) else 0)"
    and "mixOutputMap (foldl (\<lambda>s r. mixerUpdate_rule pg fmask r s) st (pre @ r # post)) ! d =
           (if mixerRuleApplies fmask r then BIT (unat (input_idx r)) else 0)"
proof -
  let ?run = "foldl (\<lambda>s r. mixerUpdate_rule pg fmask r s)"
  let ?s1 = "?run st pre"
  let ?s2 = "mixerUpdate_rule pg fmask r ?s1"
  have pre: "\<forall>x \<in> set pre. \<not> (mixerRuleApplies fmask x \<and> unat (output_idx x) = d)"
    and post: "\<forall>x \<in> set post. \<not> (mixerRuleApplies fmask x \<and> unat (output_idx x) = d)"
    using others by blast+
  have v1: "mixOutput ?s1 ! d = 0" and m1: "mixOutputMap ?s1 ! d = 0"
    using pre zero by (simp_all add: mixerUpdate_rule_list_other)
  have d1: "unat (output_idx r) < length (mixOutput ?s1)"
           "unat (output_idx r) < length (mixOutputMap ?s1)"
    using d r(2) by simp_all
  have out: "mixerRuleOutput pg ?s1 r = mixerRuleOutput pg st r"
    by (simp add: mixerRuleOutput_cong [of ?s1 st])
  have v2: "mixOutput ?s2 ! d =
              (if mixerRuleApplies fmask r
               then (if oper r = MIXER_OP_MUL then 0 else mixerRuleOutput pg st r) else 0)"
  proof (cases "mixerRuleApplies fmask r")
    case False
    then show ?thesis using v1 by (simp add: mixerUpdate_rule_def)
  next
    case True
    show ?thesis
      using r(1)
    proof (elim disjE)
      assume o: "oper r = MIXER_OP_SET"
      have "mixOutput ?s2 ! unat (output_idx r) = mixerRuleOutput pg ?s1 r"
        using True o d1 by (rule mixerUpdate_rule_SET(1))
      then show ?thesis
        using True o r(2) out by (simp add: MIXER_OP_SET_def MIXER_OP_MUL_def)
    next
      assume o: "oper r = MIXER_OP_ADD"
      have "mixOutput ?s2 ! unat (output_idx r)
              = mixOutput ?s1 ! unat (output_idx r) + mixerRuleOutput pg ?s1 r"
        using True o d1 by (rule mixerUpdate_rule_ADD(1))
      then show ?thesis
        using True o r(2) out v1 by (simp add: MIXER_OP_ADD_def MIXER_OP_MUL_def)
    next
      assume o: "oper r = MIXER_OP_MUL"
      have "mixOutput ?s2 ! unat (output_idx r)
              = mixOutput ?s1 ! unat (output_idx r) * mixerRuleOutput pg ?s1 r"
        using True o d1 by (rule mixerUpdate_rule_MUL(1))
      then show ?thesis
        using True o r(2) v1 by simp
    qed
  qed
  have m2: "mixOutputMap ?s2 ! d = (if mixerRuleApplies fmask r then BIT (unat (input_idx r)) else 0)"
  proof (cases "mixerRuleApplies fmask r")
    case False
    then show ?thesis using m1 by (simp add: mixerUpdate_rule_def)
  next
    case True
    show ?thesis
      using r(1)
    proof (elim disjE)
      assume o: "oper r = MIXER_OP_SET"
      have "mixOutputMap ?s2 ! unat (output_idx r) = BIT (unat (input_idx r))"
        using True o d1 by (rule mixerUpdate_rule_SET(2))
      then show ?thesis
        using True r(2) by simp
    next
      assume o: "oper r = MIXER_OP_ADD"
      have "mixOutputMap ?s2 ! unat (output_idx r)
              = mixOutputMap ?s1 ! unat (output_idx r) OR BIT (unat (input_idx r))"
        using True o d1 by (rule mixerUpdate_rule_ADD(2))
      then show ?thesis
        using True r(2) m1 by simp
    next
      assume o: "oper r = MIXER_OP_MUL"
      have "mixOutputMap ?s2 ! unat (output_idx r)
              = mixOutputMap ?s1 ! unat (output_idx r) OR BIT (unat (input_idx r))"
        using True o d1 by (rule mixerUpdate_rule_MUL(2))
      then show ?thesis
        using True r(2) m1 by simp
    qed
  qed
  show "mixOutput (?run st (pre @ r # post)) ! d =
           (if mixerRuleApplies fmask r
            then (if oper r = MIXER_OP_MUL then 0 else mixerRuleOutput pg st r) else 0)"
    using post v2 by (simp add: mixerUpdate_rule_list_other)
  show "mixOutputMap (?run st (pre @ r # post)) ! d =
           (if mixerRuleApplies fmask r then BIT (unat (input_idx r)) else 0)"
    using post m2 by (simp add: mixerUpdate_rule_list_other)
qed

text \<open>
  The same for \<^verbatim>\<open>mixerUpdate\<close> from the reset of the outputs on, with the mask that line
  283 computes from the flight mode flags.
\<close>

lemma mixerUpdate_outputs_single:
  assumes table: "length pre + length post + 1 = MIXER_RULE_COUNT K"
      and lens: "length (mixOutput st) = MIXER_OUTPUT_COUNT K"
                "length (mixOutputMap st) = MIXER_OUTPUT_COUNT K"
      and r: "oper r = MIXER_OP_SET \<or> oper r = MIXER_OP_ADD \<or> oper r = MIXER_OP_MUL"
             "unat (output_idx r) = d" "d < MIXER_OUTPUT_COUNT K"
      and others: "\<forall>x \<in> set pre \<union> set post.
                     \<not> (mixerRuleApplies (flightModeMask f) x \<and> unat (output_idx x) = d)"
  shows "mixOutput (mixerUpdate_outputs K pg f (st\<lparr>rules := pre @ r # post\<rparr>)) ! d =
           (if mixerRuleApplies (flightModeMask f) r
            then (if oper r = MIXER_OP_MUL then 0 else mixerRuleOutput pg st r) else 0)"
    and "mixOutputMap (mixerUpdate_outputs K pg f (st\<lparr>rules := pre @ r # post\<rparr>)) ! d =
           (if mixerRuleApplies (flightModeMask f) r then BIT (unat (input_idx r)) else 0)"
proof -
  let ?t = "pre @ r # post"
  let ?s0 = "mixerResetOutputs K (st\<lparr>rules := ?t\<rparr>)"
  have order: "mixerUpdate_outputs K pg f (st\<lparr>rules := ?t\<rparr>) =
                 foldl (\<lambda>s r. mixerUpdate_rule pg (flightModeMask f) r s) ?s0 ?t"
    using table mixerUpdate_rules_table_order [of ?s0 K pg "flightModeMask f"]
    by (simp add: mixerUpdate_outputs_def)
  have d0: "d < length (mixOutput ?s0)" "d < length (mixOutputMap ?s0)"
    using lens r(3) by simp_all
  have zero: "mixOutput ?s0 ! d = 0" "mixOutputMap ?s0 ! d = 0"
    using lens r(3) by (simp_all add: mixerResetOutputs_nth)
  have out: "mixerRuleOutput pg ?s0 r = mixerRuleOutput pg st r"
    by (simp add: mixerRuleOutput_cong [of ?s0 st])
  show "mixOutput (mixerUpdate_outputs K pg f (st\<lparr>rules := ?t\<rparr>)) ! d =
           (if mixerRuleApplies (flightModeMask f) r
            then (if oper r = MIXER_OP_MUL then 0 else mixerRuleOutput pg st r) else 0)"
    using mixerUpdate_rule_list_single(1) [OF r(1,2) d0 zero others, of pg]
    by (simp only: order out)
  show "mixOutputMap (mixerUpdate_outputs K pg f (st\<lparr>rules := ?t\<rparr>)) ! d =
           (if mixerRuleApplies (flightModeMask f) r then BIT (unat (input_idx r)) else 0)"
    using mixerUpdate_rule_list_single(2) [OF r(1,2) d0 zero others, of pg]
    by (simp only: order)
qed

text \<open>
  Claim C3. The mask of line 283, which \<^verbatim>\<open>mixerUpdate\<close> hands to its loop, has the flight
  mode flags in its lower 16 bits and their bitwise complement in its upper 16 bits. A
  rule \<open>q\<close> (a slot whose operator is not \<^verbatim>\<open>NONE\<close>) with gate mask 0 applies, and one with
  a nonzero gate mask applies if and only if \<open>gate AND flightModeMask\<close> is not 0; a slot that
  does not apply leaves the state as it is. A rule \<open>r\<close> with the operator \<^verbatim>\<open>SET\<close>, \<^verbatim>\<open>ADD\<close> or
  \<^verbatim>\<open>MUL\<close> whose gate is 0 or meets the mask is evaluated: the loop body writes its
  destination \<open>d\<close> as the operator says. And when \<open>r\<close> is the only slot of the table that
  writes \<open>d\<close>, \<^verbatim>\<open>mixerUpdate\<close> leaves in \<open>d\<close> the effect of \<open>r\<close> on the zeroed output if the
  gate of \<open>r\<close> is 0 or \<open>gate AND flightModeMask\<close> is not 0, and the zero of the reset
  otherwise.
\<close>

theorem flightModeMask_gate:
  assumes table: "length pre + length post + 1 = MIXER_RULE_COUNT K"
      and lens: "length (mixOutput st) = MIXER_OUTPUT_COUNT K"
                "length (mixOutputMap st) = MIXER_OUTPUT_COUNT K"
      and r: "oper r = MIXER_OP_SET \<or> oper r = MIXER_OP_ADD \<or> oper r = MIXER_OP_MUL"
             "unat (output_idx r) = d" "d < MIXER_OUTPUT_COUNT K"
      and others: "\<forall>x \<in> set pre \<union> set post.
                     \<not> (mixerRuleApplies (flightModeMask f) x \<and> unat (output_idx x) = d)"
  shows "take_bit 16 (flightModeMask f) = ucast f
   \<and> drop_bit 16 (flightModeMask f) = ucast (NOT f)
   \<and> (oper q \<noteq> MIXER_OP_NONE \<longrightarrow>
        (mode q = 0 \<longrightarrow> mixerRuleApplies (flightModeMask f) q)
      \<and> (mode q \<noteq> 0 \<longrightarrow>
           (mixerRuleApplies (flightModeMask f) q \<longleftrightarrow> mode q AND flightModeMask f \<noteq> 0)))
   \<and> (\<not> mixerRuleApplies (flightModeMask f) q \<longrightarrow>
        mixerUpdate_rule pg (flightModeMask f) q st = st)
   \<and> (mode r = 0 \<or> mode r AND flightModeMask f \<noteq> 0 \<longrightarrow>
        mixOutput (mixerUpdate_rule pg (flightModeMask f) r st) ! d =
          (if oper r = MIXER_OP_SET then mixerRuleOutput pg st r
           else if oper r = MIXER_OP_ADD then mixOutput st ! d + mixerRuleOutput pg st r
           else mixOutput st ! d * mixerRuleOutput pg st r)
      \<and> mixOutputMap (mixerUpdate_rule pg (flightModeMask f) r st) ! d =
          (if oper r = MIXER_OP_SET then BIT (unat (input_idx r))
           else mixOutputMap st ! d OR BIT (unat (input_idx r))))
   \<and> mixOutput (mixerUpdate_outputs K pg f (st\<lparr>rules := pre @ r # post\<rparr>)) ! d =
        (if mode r = 0 \<or> mode r AND flightModeMask f \<noteq> 0
         then (if oper r = MIXER_OP_MUL then 0 else mixerRuleOutput pg st r) else 0)
   \<and> mixOutputMap (mixerUpdate_outputs K pg f (st\<lparr>rules := pre @ r # post\<rparr>)) ! d =
        (if mode r = 0 \<or> mode r AND flightModeMask f \<noteq> 0
         then BIT (unat (input_idx r)) else 0)"
proof -
  let ?fm = "flightModeMask f"
  have halves: "take_bit 16 ?fm = ucast f" "drop_bit 16 ?fm = ucast (NOT f)"
    by (simp_all add: flightModeMask_lower flightModeMask_upper)
  have gate: "oper q \<noteq> MIXER_OP_NONE \<longrightarrow>
        (mode q = 0 \<longrightarrow> mixerRuleApplies ?fm q)
      \<and> (mode q \<noteq> 0 \<longrightarrow> (mixerRuleApplies ?fm q \<longleftrightarrow> mode q AND ?fm \<noteq> 0))"
    by (simp add: mixerRuleApplies_def MIXER_OP_NONE_def)
  have skip: "\<not> mixerRuleApplies ?fm q \<longrightarrow> mixerUpdate_rule pg ?fm q st = st"
    by (simp add: mixerUpdate_rule_skipped)
  have op: "oper r \<noteq> 0"
    using r(1) by (auto simp: MIXER_OP_SET_def MIXER_OP_ADD_def MIXER_OP_MUL_def)
  have applies: "mixerRuleApplies ?fm r \<longleftrightarrow> mode r = 0 \<or> mode r AND ?fm \<noteq> 0"
    using op by (simp add: mixerRuleApplies_def)
  have dl: "unat (output_idx r) < length (mixOutput st)"
           "unat (output_idx r) < length (mixOutputMap st)"
    using lens r(2,3) by simp_all
  have step: "mixOutput (mixerUpdate_rule pg ?fm r st) ! d =
          (if oper r = MIXER_OP_SET then mixerRuleOutput pg st r
           else if oper r = MIXER_OP_ADD then mixOutput st ! d + mixerRuleOutput pg st r
           else mixOutput st ! d * mixerRuleOutput pg st r)
      \<and> mixOutputMap (mixerUpdate_rule pg ?fm r st) ! d =
          (if oper r = MIXER_OP_SET then BIT (unat (input_idx r))
           else mixOutputMap st ! d OR BIT (unat (input_idx r)))"
    if g: "mode r = 0 \<or> mode r AND ?fm \<noteq> 0"
  proof -
    have a: "mixerRuleApplies ?fm r"
      using g applies by simp
    show ?thesis
      using r(1)
    proof (elim disjE)
      assume o: "oper r = MIXER_OP_SET"
      show ?thesis
        using mixerUpdate_rule_SET [OF a o dl, of pg] r(2) o by simp
    next
      assume o: "oper r = MIXER_OP_ADD"
      show ?thesis
        using mixerUpdate_rule_ADD [OF a o dl, of pg] r(2) o
        by (simp add: MIXER_OP_ADD_def MIXER_OP_SET_def)
    next
      assume o: "oper r = MIXER_OP_MUL"
      show ?thesis
        using mixerUpdate_rule_MUL [OF a o dl, of pg] r(2) o
        by (simp add: MIXER_OP_ADD_def MIXER_OP_SET_def MIXER_OP_MUL_def)
    qed
  qed
  have v: "mixOutput (mixerUpdate_outputs K pg f (st\<lparr>rules := pre @ r # post\<rparr>)) ! d =
        (if mode r = 0 \<or> mode r AND ?fm \<noteq> 0
         then (if oper r = MIXER_OP_MUL then 0 else mixerRuleOutput pg st r) else 0)"
    using mixerUpdate_outputs_single(1) [OF table lens r others, of pg]
    by (simp only: applies)
  have m: "mixOutputMap (mixerUpdate_outputs K pg f (st\<lparr>rules := pre @ r # post\<rparr>)) ! d =
        (if mode r = 0 \<or> mode r AND ?fm \<noteq> 0 then BIT (unat (input_idx r)) else 0)"
    using mixerUpdate_outputs_single(2) [OF table lens r others, of pg]
    by (simp only: applies)
  show ?thesis
    using halves gate skip step v m by blast
qed

text \<open>
  The theorem at the flags 5 (modes 0 and 2 active), after start-up with the stabilised
  pitch set to 1: the mask is \<open>0xFFFA0005\<close>. Of three \<^verbatim>\<open>SET\<close> rules of weight 500 in one
  table, the one gated on bit 17 (mode 1 inactive) is evaluated and \<^verbatim>\<open>mixerUpdate\<close> leaves
  0.5 and the contributor \<open>BIT(2) = 4\<close> in its output 4; the one gated on bit 1 (mode 1
  active) is skipped and its output 5 stays at the zero of the reset; the one with gate 0
  is evaluated and leaves 0.5 in its output 6.
\<close>

theorem flightModeMask_gate_witness:
  "take_bit 16 (flightModeMask 5) = 5
   \<and> drop_bit 16 (flightModeMask 5) = 65530
   \<and> mixerRuleApplies (flightModeMask 5) (mixer_rule_gated 131072 4)
   \<and> \<not> mixerRuleApplies (flightModeMask 5) (mixer_rule_gated 2 5)
   \<and> mixerRuleApplies (flightModeMask 5) (mixer_rule_gated 0 6)
   \<and> mixerUpdate_rule (mixer_pg_reset mixer_h_example) (flightModeMask 5) (mixer_rule_gated 2 5)
        mixer_state_pitch = mixer_state_pitch
   \<and> mixOutput (mixerUpdate_rule (mixer_pg_reset mixer_h_example) (flightModeMask 5)
        (mixer_rule_gated 131072 4) mixer_state_pitch) ! 4 = 1 / 2
   \<and> mixOutput (mixerUpdate_outputs mixer_h_example (mixer_pg_reset mixer_h_example) 5
        mixer_state_gated) ! 4 = 1 / 2
   \<and> mixOutputMap (mixerUpdate_outputs mixer_h_example (mixer_pg_reset mixer_h_example) 5
        mixer_state_gated) ! 4 = 4
   \<and> mixOutput (mixerUpdate_outputs mixer_h_example (mixer_pg_reset mixer_h_example) 5
        mixer_state_gated) ! 5 = 0
   \<and> mixOutputMap (mixerUpdate_outputs mixer_h_example (mixer_pg_reset mixer_h_example) 5
        mixer_state_gated) ! 5 = 0
   \<and> mixOutput (mixerUpdate_outputs mixer_h_example (mixer_pg_reset mixer_h_example) 5
        mixer_state_gated) ! 6 = 1 / 2
   \<and> mixOutputMap (mixerUpdate_outputs mixer_h_example (mixer_pg_reset mixer_h_example) 5
        mixer_state_gated) ! 6 = 4"
proof -
  let ?K = mixer_h_example
  let ?pg = "mixer_pg_reset mixer_h_example"
  let ?st = mixer_state_pitch
  let ?rA = "mixer_rule_gated 131072 4"
  let ?rB = "mixer_rule_gated 2 5"
  let ?rC = "mixer_rule_gated 0 6"
  let ?zs = "replicate 29 mixerRule_zero"
  let ?run = "mixerUpdate_outputs ?K ?pg 5"
  have tables: "length ([] :: mixerRule_t list) + length (?rB # ?rC # ?zs) + 1 = MIXER_RULE_COUNT ?K"
               "length [?rA] + length (?rC # ?zs) + 1 = MIXER_RULE_COUNT ?K"
               "length [?rA, ?rB] + length ?zs + 1 = MIXER_RULE_COUNT ?K"
    by (simp_all add: mixer_h_example_def)
  have lens: "length (mixOutput ?st) = MIXER_OUTPUT_COUNT ?K"
             "length (mixOutputMap ?st) = MIXER_OUTPUT_COUNT ?K"
    by (simp_all add: mixer_state_pitch_def mixer_h_example_def)
  have ops: "oper ?rA = MIXER_OP_SET \<or> oper ?rA = MIXER_OP_ADD \<or> oper ?rA = MIXER_OP_MUL"
            "oper ?rB = MIXER_OP_SET \<or> oper ?rB = MIXER_OP_ADD \<or> oper ?rB = MIXER_OP_MUL"
            "oper ?rC = MIXER_OP_SET \<or> oper ?rC = MIXER_OP_ADD \<or> oper ?rC = MIXER_OP_MUL"
    by (simp_all add: mixer_rule_gated_def)
  have dst: "unat (output_idx ?rA) = 4" "unat (output_idx ?rB) = 5" "unat (output_idx ?rC) = 6"
    by (simp_all add: mixer_rule_gated_def)
  have ds: "4 < MIXER_OUTPUT_COUNT ?K" "5 < MIXER_OUTPUT_COUNT ?K" "6 < MIXER_OUTPUT_COUNT ?K"
    by (simp_all add: mixer_h_example_def)
  have othersA: "\<forall>x \<in> set [] \<union> set (?rB # ?rC # ?zs).
                   \<not> (mixerRuleApplies (flightModeMask 5) x \<and> unat (output_idx x) = 4)"
    and othersB: "\<forall>x \<in> set [?rA] \<union> set (?rC # ?zs).
                   \<not> (mixerRuleApplies (flightModeMask 5) x \<and> unat (output_idx x) = 5)"
    and othersC: "\<forall>x \<in> set [?rA, ?rB] \<union> set ?zs.
                   \<not> (mixerRuleApplies (flightModeMask 5) x \<and> unat (output_idx x) = 6)"
    by (simp_all add: mixer_rule_gated_def mixerRule_zero_def)
  note TA = flightModeMask_gate [OF tables(1) lens ops(1) dst(1) ds(1) othersA,
      where pg = ?pg and q = ?rB]
  note TB = flightModeMask_gate [OF tables(2) lens ops(2) dst(2) ds(2) othersB,
      where pg = ?pg and q = ?rA]
  note TC = flightModeMask_gate [OF tables(3) lens ops(3) dst(3) ds(3) othersC,
      where pg = ?pg and q = ?rC]
  have table: "mixer_state_gated = ?st\<lparr>rules := [] @ ?rA # ?rB # ?rC # ?zs\<rparr>"
              "mixer_state_gated = ?st\<lparr>rules := [?rA] @ ?rB # ?rC # ?zs\<rparr>"
              "mixer_state_gated = ?st\<lparr>rules := [?rA, ?rB] @ ?rC # ?zs\<rparr>"
    by (simp_all add: mixer_state_gated_def)
  have modes: "mode ?rA \<noteq> 0" "mode ?rB \<noteq> 0" "mode ?rC = 0"
    and nonen: "oper ?rA \<noteq> MIXER_OP_NONE" "oper ?rB \<noteq> MIXER_OP_NONE" "oper ?rC \<noteq> MIXER_OP_NONE"
    and isset: "oper ?rA = MIXER_OP_SET" "oper ?rC = MIXER_OP_SET"
    and notmul: "oper ?rA \<noteq> MIXER_OP_MUL" "oper ?rC \<noteq> MIXER_OP_MUL"
    by (simp_all add: mixer_rule_gated_def MIXER_OP_NONE_def MIXER_OP_SET_def MIXER_OP_MUL_def)
  have andA: "mode ?rA AND flightModeMask 5 \<noteq> 0"
    unfolding mixer_rule_gated_def by code_simp
  have andB: "\<not> mode ?rB AND flightModeMask 5 \<noteq> 0"
    unfolding mixer_rule_gated_def by code_simp
  have low: "ucast (5 :: uint16_t) = (5 :: uint32_t)"
    and high: "ucast (NOT (5 :: uint16_t)) = (65530 :: uint32_t)"
    by code_simp+
  have pitch: "mixInput ?st ! 2 = 1"
    by (simp add: mixer_state_pitch_def mixerSetInput_stored mixerOverrideValue_def
        mixerInputClamp_def example_reset_pitch float_of_int16_def)
  have out: "mixerRuleOutput ?pg ?st (mixer_rule_gated g k) = 1 / 2" for g k
    by (simp add: mixerRuleOutput_def mixer_rule_gated_def Let_def pitch example_reset_pitch
        float_of_int16_def)
  have bit: "BIT (unat (input_idx (mixer_rule_gated g k))) = 4" for g k
    by (simp add: BIT_def mixer_rule_gated_def)
  have h1: "take_bit 16 (flightModeMask 5) = 5" "drop_bit 16 (flightModeMask 5) = 65530"
    using TA low high by simp_all
  have aA: "mixerRuleApplies (flightModeMask 5) ?rA"
    using TB nonen(1) modes(1) andA by blast
  have nB: "\<not> mixerRuleApplies (flightModeMask 5) ?rB"
    using TA nonen(2) modes(2) andB by blast
  have aC: "mixerRuleApplies (flightModeMask 5) ?rC"
    using TC nonen(3) modes(3) by blast
  have sB: "mixerUpdate_rule ?pg (flightModeMask 5) ?rB ?st = ?st"
    using TA nB by blast
  have "mixOutput (mixerUpdate_rule ?pg (flightModeMask 5) ?rA ?st) ! 4 =
          (if oper ?rA = MIXER_OP_SET then mixerRuleOutput ?pg ?st ?rA
           else if oper ?rA = MIXER_OP_ADD then mixOutput ?st ! 4 + mixerRuleOutput ?pg ?st ?rA
           else mixOutput ?st ! 4 * mixerRuleOutput ?pg ?st ?rA)"
    using TA andA by blast
  then have sA: "mixOutput (mixerUpdate_rule ?pg (flightModeMask 5) ?rA ?st) ! 4 = 1 / 2"
    by (simp only: isset simp_thms if_True out)
  have "mixOutput (?run (?st\<lparr>rules := [] @ ?rA # ?rB # ?rC # ?zs\<rparr>)) ! 4 =
          (if mode ?rA = 0 \<or> mode ?rA AND flightModeMask 5 \<noteq> 0
           then (if oper ?rA = MIXER_OP_MUL then 0 else mixerRuleOutput ?pg ?st ?rA) else 0)"
    using TA by blast
  then have vA: "mixOutput (?run mixer_state_gated) ! 4 = 1 / 2"
    using andA notmul(1) by (simp only: table(1) [symmetric] out simp_thms if_True if_False)
  have "mixOutputMap (?run (?st\<lparr>rules := [] @ ?rA # ?rB # ?rC # ?zs\<rparr>)) ! 4 =
          (if mode ?rA = 0 \<or> mode ?rA AND flightModeMask 5 \<noteq> 0
           then BIT (unat (input_idx ?rA)) else 0)"
    using TA by blast
  then have mA: "mixOutputMap (?run mixer_state_gated) ! 4 = 4"
    using andA by (simp only: table(1) [symmetric] bit simp_thms if_True)
  have "mixOutput (?run (?st\<lparr>rules := [?rA] @ ?rB # ?rC # ?zs\<rparr>)) ! 5 =
          (if mode ?rB = 0 \<or> mode ?rB AND flightModeMask 5 \<noteq> 0
           then (if oper ?rB = MIXER_OP_MUL then 0 else mixerRuleOutput ?pg ?st ?rB) else 0)"
    using TB by blast
  then have vB: "mixOutput (?run mixer_state_gated) ! 5 = 0"
    using andB modes(2) by (simp only: table(2) [symmetric] simp_thms if_False)
  have "mixOutputMap (?run (?st\<lparr>rules := [?rA] @ ?rB # ?rC # ?zs\<rparr>)) ! 5 =
          (if mode ?rB = 0 \<or> mode ?rB AND flightModeMask 5 \<noteq> 0
           then BIT (unat (input_idx ?rB)) else 0)"
    using TB by blast
  then have mB: "mixOutputMap (?run mixer_state_gated) ! 5 = 0"
    using andB modes(2) by (simp only: table(2) [symmetric] simp_thms if_False)
  have "mixOutput (?run (?st\<lparr>rules := [?rA, ?rB] @ ?rC # ?zs\<rparr>)) ! 6 =
          (if mode ?rC = 0 \<or> mode ?rC AND flightModeMask 5 \<noteq> 0
           then (if oper ?rC = MIXER_OP_MUL then 0 else mixerRuleOutput ?pg ?st ?rC) else 0)"
    using TC by blast
  then have vC: "mixOutput (?run mixer_state_gated) ! 6 = 1 / 2"
    using modes(3) notmul(2) by (simp only: table(3) [symmetric] out simp_thms if_True if_False)
  have "mixOutputMap (?run (?st\<lparr>rules := [?rA, ?rB] @ ?rC # ?zs\<rparr>)) ! 6 =
          (if mode ?rC = 0 \<or> mode ?rC AND flightModeMask 5 \<noteq> 0
           then BIT (unat (input_idx ?rC)) else 0)"
    using TC by blast
  then have mC: "mixOutputMap (?run mixer_state_gated) ! 6 = 4"
    using modes(3) by (simp only: table(3) [symmetric] bit simp_thms if_True)
  show ?thesis
    using h1 aA nB aC sB sA vA mA vB mB vC mC by blast
qed

subsection \<open>Rule engine: the operators and the order of the table\<close>

text \<open>Two rules \<open>r1\<close>, \<open>r2\<close> on the output \<open>d\<close>, which no later rule of the table touches.\<close>

lemma mixerUpdate_rule_list_pair:
  assumes others: "\<forall>r \<in> set mid \<union> set post. \<not> (mixerRuleApplies fmask r \<and> unat (output_idx r) = d)"
  shows "mixOutput (foldl (\<lambda>s r. mixerUpdate_rule pg fmask r s) st (pre @ r1 # mid @ r2 # post)) ! d =
         mixOutput (mixerUpdate_rule pg fmask r2
           (foldl (\<lambda>s r. mixerUpdate_rule pg fmask r s)
              (mixerUpdate_rule pg fmask r1 (foldl (\<lambda>s r. mixerUpdate_rule pg fmask r s) st pre)) mid)) ! d"
    and "mixOutputMap (foldl (\<lambda>s r. mixerUpdate_rule pg fmask r s) st (pre @ r1 # mid @ r2 # post)) ! d =
         mixOutputMap (mixerUpdate_rule pg fmask r2
           (foldl (\<lambda>s r. mixerUpdate_rule pg fmask r s)
              (mixerUpdate_rule pg fmask r1 (foldl (\<lambda>s r. mixerUpdate_rule pg fmask r s) st pre)) mid)) ! d"
  using others by (simp_all add: mixerUpdate_rule_list_other)

lemma mixerUpdate_rule_list_set_add:
  assumes s: "mixerRuleApplies fmask rs" "oper rs = MIXER_OP_SET" "unat (output_idx rs) = d"
      and a: "mixerRuleApplies fmask ra" "oper ra = MIXER_OP_ADD" "unat (output_idx ra) = d"
      and d: "d < length (mixOutput st)" "d < length (mixOutputMap st)"
      and others: "\<forall>r \<in> set mid \<union> set post. \<not> (mixerRuleApplies fmask r \<and> unat (output_idx r) = d)"
  shows "mixOutput (foldl (\<lambda>s r. mixerUpdate_rule pg fmask r s) st (pre @ rs # mid @ ra # post)) ! d
           = mixerRuleOutput pg st rs + mixerRuleOutput pg st ra"
    and "mixOutputMap (foldl (\<lambda>s r. mixerUpdate_rule pg fmask r s) st (pre @ rs # mid @ ra # post)) ! d
           = BIT (unat (input_idx rs)) OR BIT (unat (input_idx ra))"
proof -
  let ?run = "foldl (\<lambda>s r. mixerUpdate_rule pg fmask r s)"
  let ?s1 = "?run st pre"
  let ?s2 = "mixerUpdate_rule pg fmask rs ?s1"
  let ?s3 = "?run ?s2 mid"
  have mid: "\<forall>r \<in> set mid. \<not> (mixerRuleApplies fmask r \<and> unat (output_idx r) = d)"
    using others by blast
  have v2: "mixOutput ?s2 ! d = mixerRuleOutput pg st rs"
    and m2: "mixOutputMap ?s2 ! d = BIT (unat (input_idx rs))"
    using mixerUpdate_rule_SET [of fmask rs ?s1 pg] s d
    by (simp_all add: mixerRuleOutput_cong [of ?s1 st])
  have v3: "mixOutput ?s3 ! d = mixerRuleOutput pg st rs"
    and m3: "mixOutputMap ?s3 ! d = BIT (unat (input_idx rs))"
    using mid v2 m2 by (simp_all add: mixerUpdate_rule_list_other)
  have v4: "mixOutput (mixerUpdate_rule pg fmask ra ?s3) ! d
              = mixerRuleOutput pg st rs + mixerRuleOutput pg st ra"
    and m4: "mixOutputMap (mixerUpdate_rule pg fmask ra ?s3) ! d
              = BIT (unat (input_idx rs)) OR BIT (unat (input_idx ra))"
    using mixerUpdate_rule_ADD [of fmask ra ?s3 pg] a d v3 m3
    by (simp_all add: mixerRuleOutput_cong [of ?s3 st])
  show "mixOutput (?run st (pre @ rs # mid @ ra # post)) ! d
           = mixerRuleOutput pg st rs + mixerRuleOutput pg st ra"
    using mixerUpdate_rule_list_pair(1) [OF others] v4 by simp
  show "mixOutputMap (?run st (pre @ rs # mid @ ra # post)) ! d
           = BIT (unat (input_idx rs)) OR BIT (unat (input_idx ra))"
    using mixerUpdate_rule_list_pair(2) [OF others] m4 by simp
qed

lemma mixerUpdate_rule_list_last_set:
  assumes s: "mixerRuleApplies fmask rs" "oper rs = MIXER_OP_SET" "unat (output_idx rs) = d"
      and d: "d < length (mixOutput st)" "d < length (mixOutputMap st)"
      and others: "\<forall>r \<in> set post. \<not> (mixerRuleApplies fmask r \<and> unat (output_idx r) = d)"
  shows "mixOutput (foldl (\<lambda>s r. mixerUpdate_rule pg fmask r s) st (pre @ rs # post)) ! d
           = mixerRuleOutput pg st rs"
    and "mixOutputMap (foldl (\<lambda>s r. mixerUpdate_rule pg fmask r s) st (pre @ rs # post)) ! d
           = BIT (unat (input_idx rs))"
proof -
  let ?run = "foldl (\<lambda>s r. mixerUpdate_rule pg fmask r s)"
  let ?s1 = "?run st pre"
  let ?s2 = "mixerUpdate_rule pg fmask rs ?s1"
  have v2: "mixOutput ?s2 ! d = mixerRuleOutput pg st rs"
    and m2: "mixOutputMap ?s2 ! d = BIT (unat (input_idx rs))"
    using mixerUpdate_rule_SET [of fmask rs ?s1 pg] s d
    by (simp_all add: mixerRuleOutput_cong [of ?s1 st])
  show "mixOutput (?run st (pre @ rs # post)) ! d = mixerRuleOutput pg st rs"
    using others v2 by (simp add: mixerUpdate_rule_list_other)
  show "mixOutputMap (?run st (pre @ rs # post)) ! d = BIT (unat (input_idx rs))"
    using others m2 by (simp add: mixerUpdate_rule_list_other)
qed

text \<open>
  Claim C4. The loop of \<^verbatim>\<open>mixerUpdate\<close> applies the slots in table order. A rule computes
  \<open>(offset + weight * (mixInput[src] * rate[src] / 1000)) / 1000\<close>; \<^verbatim>\<open>SET\<close> assigns it to
  the output and makes \<open>BIT(src)\<close> the contributor bitmap, \<^verbatim>\<open>ADD\<close> adds it and \<^verbatim>\<open>MUL\<close>
  multiplies by it, both joining \<open>BIT(src)\<close> to the bitmap. Let the table hold an applicable
  \<^verbatim>\<open>SET\<close> rule \<open>rs\<close> and, later, an applicable \<^verbatim>\<open>ADD\<close> rule \<open>ra\<close> with the same destination
  \<open>d\<close>, which no other rule after \<open>rs\<close> writes. Then the final value of \<open>d\<close> is the sum of
  the two rule outputs, with both inputs as contributors. With the two rules exchanged
  (\<^verbatim>\<open>SET\<close> after \<^verbatim>\<open>ADD\<close>) the final value is the output of \<open>rs\<close> alone, so the two orders
  differ exactly when the output of \<open>ra\<close> is not 0.
\<close>

theorem mixerUpdate_rules_set_add:
  assumes table: "length pre + length mid + length post + 2 = MIXER_RULE_COUNT K"
      and s: "mixerRuleApplies fmask rs" "oper rs = MIXER_OP_SET" "unat (output_idx rs) = d"
      and a: "mixerRuleApplies fmask ra" "oper ra = MIXER_OP_ADD" "unat (output_idx ra) = d"
      and d: "d < length (mixOutput st)" "d < length (mixOutputMap st)"
      and others: "\<forall>r \<in> set mid \<union> set post. \<not> (mixerRuleApplies fmask r \<and> unat (output_idx r) = d)"
  shows "mixerUpdate_rules K pg fmask (st\<lparr>rules := pre @ rs # mid @ ra # post\<rparr>) =
           foldl (\<lambda>s r. mixerUpdate_rule pg fmask r s) (st\<lparr>rules := pre @ rs # mid @ ra # post\<rparr>)
             (pre @ rs # mid @ ra # post)
       \<and> mixerRuleOutput pg st r =
           (float_of_int16 (offset r) + float_of_int16 (weight r) *
              (mixInput st ! unat (input_idx r) *
               float_of_int16 (in_rate (mixerInputs pg ! unat (input_idx r))) / 1000)) / 1000
       \<and> mixOutput (mixerUpdate_rule pg fmask rs st) ! d = mixerRuleOutput pg st rs
       \<and> mixOutputMap (mixerUpdate_rule pg fmask rs st) ! d = BIT (unat (input_idx rs))
       \<and> mixOutput (mixerUpdate_rule pg fmask ra st) ! d = mixOutput st ! d + mixerRuleOutput pg st ra
       \<and> mixOutputMap (mixerUpdate_rule pg fmask ra st) ! d
           = mixOutputMap st ! d OR BIT (unat (input_idx ra))
       \<and> (mixerRuleApplies fmask r \<and> oper r = MIXER_OP_MUL \<and> unat (output_idx r) = d \<longrightarrow>
            mixOutput (mixerUpdate_rule pg fmask r st) ! d = mixOutput st ! d * mixerRuleOutput pg st r
          \<and> mixOutputMap (mixerUpdate_rule pg fmask r st) ! d
              = mixOutputMap st ! d OR BIT (unat (input_idx r)))
       \<and> mixOutput (mixerUpdate_rules K pg fmask (st\<lparr>rules := pre @ rs # mid @ ra # post\<rparr>)) ! d
           = mixerRuleOutput pg st rs + mixerRuleOutput pg st ra
       \<and> mixOutputMap (mixerUpdate_rules K pg fmask (st\<lparr>rules := pre @ rs # mid @ ra # post\<rparr>)) ! d
           = BIT (unat (input_idx rs)) OR BIT (unat (input_idx ra))
       \<and> mixOutput (mixerUpdate_rules K pg fmask (st\<lparr>rules := pre @ ra # mid @ rs # post\<rparr>)) ! d
           = mixerRuleOutput pg st rs
       \<and> mixOutputMap (mixerUpdate_rules K pg fmask (st\<lparr>rules := pre @ ra # mid @ rs # post\<rparr>)) ! d
           = BIT (unat (input_idx rs))
       \<and> (mixOutput (mixerUpdate_rules K pg fmask (st\<lparr>rules := pre @ rs # mid @ ra # post\<rparr>)) ! d
            \<noteq> mixOutput (mixerUpdate_rules K pg fmask (st\<lparr>rules := pre @ ra # mid @ rs # post\<rparr>)) ! d
          \<longleftrightarrow> mixerRuleOutput pg st ra \<noteq> 0)"
proof -
  let ?run = "foldl (\<lambda>s r. mixerUpdate_rule pg fmask r s)"
  let ?t1 = "pre @ rs # mid @ ra # post"
  let ?t2 = "pre @ ra # mid @ rs # post"
  let ?st1 = "st\<lparr>rules := ?t1\<rparr>"
  let ?st2 = "st\<lparr>rules := ?t2\<rparr>"
  have order1: "mixerUpdate_rules K pg fmask ?st1 = ?run ?st1 ?t1"
    and order2: "mixerUpdate_rules K pg fmask ?st2 = ?run ?st2 ?t2"
    using table by (simp_all add: mixerUpdate_rules_table_order)
  have out: "mixerRuleOutput pg ?st1 x = mixerRuleOutput pg st x"
            "mixerRuleOutput pg ?st2 x = mixerRuleOutput pg st x" for x
    by (simp_all add: mixerRuleOutput_def)
  have formula: "mixerRuleOutput pg st r =
           (float_of_int16 (offset r) + float_of_int16 (weight r) *
              (mixInput st ! unat (input_idx r) *
               float_of_int16 (in_rate (mixerInputs pg ! unat (input_idx r))) / 1000)) / 1000"
    by (simp add: mixerRuleOutput_def Let_def)
  have set_step: "mixOutput (mixerUpdate_rule pg fmask rs st) ! d = mixerRuleOutput pg st rs"
                 "mixOutputMap (mixerUpdate_rule pg fmask rs st) ! d = BIT (unat (input_idx rs))"
    using mixerUpdate_rule_SET [of fmask rs st pg] s d by simp_all
  have add_step: "mixOutput (mixerUpdate_rule pg fmask ra st) ! d
                    = mixOutput st ! d + mixerRuleOutput pg st ra"
                 "mixOutputMap (mixerUpdate_rule pg fmask ra st) ! d
                    = mixOutputMap st ! d OR BIT (unat (input_idx ra))"
    using mixerUpdate_rule_ADD [of fmask ra st pg] a d by simp_all
  have mul_step: "mixOutput (mixerUpdate_rule pg fmask r st) ! d
                    = mixOutput st ! d * mixerRuleOutput pg st r
                \<and> mixOutputMap (mixerUpdate_rule pg fmask r st) ! d
                    = mixOutputMap st ! d OR BIT (unat (input_idx r))"
    if "mixerRuleApplies fmask r \<and> oper r = MIXER_OP_MUL \<and> unat (output_idx r) = d"
    using mixerUpdate_rule_MUL [of fmask r st pg] that d by simp
  have d1: "d < length (mixOutput ?st1)" "d < length (mixOutputMap ?st1)"
    and d2: "d < length (mixOutput ?st2)" "d < length (mixOutputMap ?st2)"
    using d by simp_all
  have v1: "mixOutput (mixerUpdate_rules K pg fmask ?st1) ! d
              = mixerRuleOutput pg st rs + mixerRuleOutput pg st ra"
    and m1: "mixOutputMap (mixerUpdate_rules K pg fmask ?st1) ! d
              = BIT (unat (input_idx rs)) OR BIT (unat (input_idx ra))"
    using mixerUpdate_rule_list_set_add [OF s a d1 others, of pg pre]
    by (simp_all only: order1 out)
  have post: "\<forall>r \<in> set post. \<not> (mixerRuleApplies fmask r \<and> unat (output_idx r) = d)"
    using others by blast
  have "mixOutput (?run ?st2 ?t2) ! d = mixerRuleOutput pg ?st2 rs"
    using mixerUpdate_rule_list_last_set(1) [OF s d2 post, of pg "pre @ ra # mid"] by simp
  then have v2: "mixOutput (mixerUpdate_rules K pg fmask ?st2) ! d = mixerRuleOutput pg st rs"
    by (simp only: order2 out)
  have "mixOutputMap (?run ?st2 ?t2) ! d = BIT (unat (input_idx rs))"
    using mixerUpdate_rule_list_last_set(2) [OF s d2 post, of pg "pre @ ra # mid"] by simp
  then have m2: "mixOutputMap (mixerUpdate_rules K pg fmask ?st2) ! d = BIT (unat (input_idx rs))"
    by (simp only: order2)
  have differ: "mixOutput (mixerUpdate_rules K pg fmask ?st1) ! d
                  \<noteq> mixOutput (mixerUpdate_rules K pg fmask ?st2) ! d
                \<longleftrightarrow> mixerRuleOutput pg st ra \<noteq> 0"
    by (simp only: v1 v2) simp
  show ?thesis
    using order1 formula set_step add_step mul_step v1 m1 v2 m2 differ
    by (intro conjI impI) blast+
qed

text \<open>
  The theorem after start-up with the reset configuration and the stabilised pitch set
  to 1: the \<^verbatim>\<open>SET\<close> rule (pitch, weight 500) gives 0.5 and the \<^verbatim>\<open>ADD\<close> rule (offset 250)
  gives 0.25, both on output 4. \<^verbatim>\<open>SET\<close> then \<^verbatim>\<open>ADD\<close> leaves 0.75 with the contributors
  \<open>BIT(2) OR BIT(3) = 12\<close>; \<^verbatim>\<open>ADD\<close> then \<^verbatim>\<open>SET\<close> leaves 0.5.
\<close>

theorem mixerUpdate_rules_set_add_witness:
  "mixerRuleApplies (flightModeMask 0)
       \<lparr>mode = 0, oper = 1, input_idx = 2, output_idx = 4, offset = 0, weight = 500\<rparr>
   \<and> mixerRuleApplies (flightModeMask 0)
       \<lparr>mode = 0, oper = 2, input_idx = 3, output_idx = 4, offset = 250, weight = 0\<rparr>
   \<and> mixOutput (mixerUpdate_rules mixer_h_example (mixer_pg_reset mixer_h_example) (flightModeMask 0)
        ((mixerSetInput mixer_h_example (mixer_pg_reset mixer_h_example) True 2 1 mixer_state_example)
           \<lparr>rules := \<lparr>mode = 0, oper = 1, input_idx = 2, output_idx = 4, offset = 0, weight = 500\<rparr>
                     # \<lparr>mode = 0, oper = 2, input_idx = 3, output_idx = 4, offset = 250, weight = 0\<rparr>
                     # replicate 30 mixerRule_zero\<rparr>)) ! 4 = 3 / 4
   \<and> mixOutputMap (mixerUpdate_rules mixer_h_example (mixer_pg_reset mixer_h_example) (flightModeMask 0)
        ((mixerSetInput mixer_h_example (mixer_pg_reset mixer_h_example) True 2 1 mixer_state_example)
           \<lparr>rules := \<lparr>mode = 0, oper = 1, input_idx = 2, output_idx = 4, offset = 0, weight = 500\<rparr>
                     # \<lparr>mode = 0, oper = 2, input_idx = 3, output_idx = 4, offset = 250, weight = 0\<rparr>
                     # replicate 30 mixerRule_zero\<rparr>)) ! 4 = 12
   \<and> mixOutput (mixerUpdate_rules mixer_h_example (mixer_pg_reset mixer_h_example) (flightModeMask 0)
        ((mixerSetInput mixer_h_example (mixer_pg_reset mixer_h_example) True 2 1 mixer_state_example)
           \<lparr>rules := \<lparr>mode = 0, oper = 2, input_idx = 3, output_idx = 4, offset = 250, weight = 0\<rparr>
                     # \<lparr>mode = 0, oper = 1, input_idx = 2, output_idx = 4, offset = 0, weight = 500\<rparr>
                     # replicate 30 mixerRule_zero\<rparr>)) ! 4 = 1 / 2"
proof -
  let ?K = mixer_h_example
  let ?pg = "mixer_pg_reset mixer_h_example"
  let ?fm = "flightModeMask 0"
  let ?st = "mixerSetInput ?K ?pg True 2 1 mixer_state_example"
  let ?rs = "\<lparr>mode = 0, oper = 1, input_idx = 2, output_idx = 4, offset = 0, weight = 500\<rparr>"
  let ?ra = "\<lparr>mode = 0, oper = 2, input_idx = 3, output_idx = 4, offset = 250, weight = 0\<rparr>"
  let ?post = "replicate 30 mixerRule_zero"
  have table: "length ([] :: mixerRule_t list) + length ([] :: mixerRule_t list) + length ?post + 2
                 = MIXER_RULE_COUNT ?K"
    by (simp add: mixer_h_example_def)
  have s: "mixerRuleApplies ?fm ?rs" "oper ?rs = MIXER_OP_SET" "unat (output_idx ?rs) = 4"
    and a: "mixerRuleApplies ?fm ?ra" "oper ?ra = MIXER_OP_ADD" "unat (output_idx ?ra) = 4"
    by (simp_all add: mixerRuleApplies_def MIXER_OP_SET_def MIXER_OP_ADD_def)
  have d: "4 < length (mixOutput ?st)" "4 < length (mixOutputMap ?st)"
    by (simp_all add: mixerSetInput_def mixerSaturateInput_def Let_def)
  have others: "\<forall>r \<in> set [] \<union> set ?post. \<not> (mixerRuleApplies ?fm r \<and> unat (output_idx r) = 4)"
    by (simp add: mixerRuleApplies_def mixerRule_zero_def)
  have pitch: "mixInput ?st ! 2 = 1"
    by (simp add: mixerSetInput_stored mixerOverrideValue_def mixerInputClamp_def
        example_reset_pitch float_of_int16_def)
  have outs: "mixerRuleOutput ?pg ?st ?rs = 1 / 2"
    by (simp add: mixerRuleOutput_def Let_def pitch example_reset_pitch float_of_int16_def)
  have outa: "mixerRuleOutput ?pg ?st ?ra = 1 / 4"
    by (simp add: mixerRuleOutput_def Let_def float_of_int16_def)
  have bits: "BIT (unat (input_idx ?rs)) OR BIT (unat (input_idx ?ra)) = 12"
    by (simp add: BIT_def)
  note T = mixerUpdate_rules_set_add [OF table s a d others, of ?pg ?rs]
  have "mixOutput (mixerUpdate_rules ?K ?pg ?fm (?st\<lparr>rules := [] @ ?rs # [] @ ?ra # ?post\<rparr>)) ! 4
          = mixerRuleOutput ?pg ?st ?rs + mixerRuleOutput ?pg ?st ?ra"
    using T by blast
  then have "mixOutput (mixerUpdate_rules ?K ?pg ?fm (?st\<lparr>rules := ?rs # ?ra # ?post\<rparr>)) ! 4 = 3 / 4"
    unfolding append_Nil outs outa by simp
  moreover have "mixOutputMap (mixerUpdate_rules ?K ?pg ?fm (?st\<lparr>rules := [] @ ?rs # [] @ ?ra # ?post\<rparr>)) ! 4
          = BIT (unat (input_idx ?rs)) OR BIT (unat (input_idx ?ra))"
    using T by blast
  then have "mixOutputMap (mixerUpdate_rules ?K ?pg ?fm (?st\<lparr>rules := ?rs # ?ra # ?post\<rparr>)) ! 4 = 12"
    unfolding append_Nil bits by simp
  moreover have "mixOutput (mixerUpdate_rules ?K ?pg ?fm (?st\<lparr>rules := [] @ ?ra # [] @ ?rs # ?post\<rparr>)) ! 4
          = mixerRuleOutput ?pg ?st ?rs"
    using T by blast
  then have "mixOutput (mixerUpdate_rules ?K ?pg ?fm (?st\<lparr>rules := ?ra # ?rs # ?post\<rparr>)) ! 4 = 1 / 2"
    unfolding append_Nil outs by simp
  ultimately show ?thesis
    using s(1) a(1) by blast
qed

subsection \<open>Swash compensator: the ring and the total deflection\<close>

lemma mixerCyclicLimit_phase_frame [simp]:
  "cyclicLimit (mixerCyclicLimit_phase K st) = cyclicLimit st"
  "mixSaturated (mixerCyclicLimit_phase K st) = mixSaturated st"
  "length (mixInput (mixerCyclicLimit_phase K st)) = length (mixInput st)"
  by (simp_all add: mixerCyclicLimit_phase_def Let_def)










subsection \<open>Swash compensator: phasing\<close>

text \<open>
  When \<^verbatim>\<open>phaseSin\<close> is not 0 the pair is rotated as the specification gives it, and when it
  is 0 the state is left as it is. After \<^verbatim>\<open>mixerInit\<close>, \<^verbatim>\<open>phaseSin\<close> is not 0 exactly when the
  configured angle is not 0 and its \<^verbatim>\<open>sin_approx\<close> is not 0; with the angle 0 the loader
  stores sine 0 and cosine 1.
\<close>

lemma mixerCyclicLimit_phase_rotated:
  assumes "phaseSin st \<noteq> 0"
      and "MIXER_IN_STABILIZED_ROLL K \<noteq> MIXER_IN_STABILIZED_PITCH K"
      and "MIXER_IN_STABILIZED_ROLL K < length (mixInput st)"
      and "MIXER_IN_STABILIZED_PITCH K < length (mixInput st)"
  shows "mixInput (mixerCyclicLimit_phase K st) ! MIXER_IN_STABILIZED_PITCH K =
           mixInput st ! MIXER_IN_STABILIZED_PITCH K * phaseCos st
             - mixInput st ! MIXER_IN_STABILIZED_ROLL K * phaseSin st"
    and "mixInput (mixerCyclicLimit_phase K st) ! MIXER_IN_STABILIZED_ROLL K =
           mixInput st ! MIXER_IN_STABILIZED_PITCH K * phaseSin st
             + mixInput st ! MIXER_IN_STABILIZED_ROLL K * phaseCos st"
  using assms by (simp_all add: mixerCyclicLimit_phase_def Let_def)

lemma mixerCyclicLimit_phase_skipped:
  "phaseSin st = 0 \<Longrightarrow> mixerCyclicLimit_phase K st = st"
  by (simp add: mixerCyclicLimit_phase_def)

lemma mixerCyclicLimit_phase_applied_iff:
  "phaseSin (mixerInit M K pg st) \<noteq> 0 \<longleftrightarrow>
     swash_phase (mixerConfig pg) \<noteq> 0
     \<and> sin_approx M (DECIDEGREES_TO_RADIANS M (swash_phase (mixerConfig pg))) \<noteq> 0"
  by (simp add: mixerInit_swash)

lemma mixerInit_no_phase:
  "swash_phase (mixerConfig pg) = 0 \<Longrightarrow>
   phaseSin (mixerInit M K pg st) = 0 \<and> phaseCos (mixerInit M K pg st) = 1"
  by (simp add: mixerInit_swash)

lemma half_turn_radians: "DECIDEGREES_TO_RADIANS maths_exact 1800 = pi"
  by (simp add: maths_exact_def)

text \<open>
  Claim C6 says that the rotation is applied if and only if the configured angle is not
  0. The code decides on \<^verbatim>\<open>phaseSin != 0\<close> instead, so an angle whose sine is 0 is not
  applied: with the swash phase at 1800 decidegrees and the exact sine and cosine,
  \<^verbatim>\<open>mixerInit\<close> stores sine 0 and cosine \<open>-1\<close>, and \<^verbatim>\<open>mixerCyclicLimit\<close> leaves roll 1 and
  pitch 0 as they are, where the rotation of the claim gives roll \<open>-1\<close>.
\<close>

theorem mixerCyclicLimit_phase_half_turn:
  "swash_phase (mixerConfig mixer_pg_half_turn) = 1800
   \<and> phaseSin mixer_state_half_turn = 0
   \<and> phaseCos mixer_state_half_turn = - 1
   \<and> mixInput mixer_state_half_turn ! MIXER_IN_STABILIZED_ROLL mixer_h_example = 1
   \<and> mixInput mixer_state_half_turn ! MIXER_IN_STABILIZED_PITCH mixer_h_example = 0
   \<and> mixInput (mixerCyclicLimit_phase mixer_h_example mixer_state_half_turn)
        ! MIXER_IN_STABILIZED_ROLL mixer_h_example = 1
   \<and> mixInput mixer_state_half_turn ! MIXER_IN_STABILIZED_PITCH mixer_h_example
          * phaseSin mixer_state_half_turn
        + mixInput mixer_state_half_turn ! MIXER_IN_STABILIZED_ROLL mixer_h_example
          * phaseCos mixer_state_half_turn = - 1"
proof -
  let ?K = mixer_h_example
  let ?st0 = "mixerInit maths_exact ?K mixer_pg_half_turn (mixer_state_zero ?K)"
  have cfg: "swash_phase (mixerConfig mixer_pg_half_turn) = 1800"
    and inp: "mixerInputs mixer_pg_half_turn = mixerInputs (mixer_pg_reset ?K)"
    by (simp_all add: mixer_pg_half_turn_def)
  have s: "phaseSin mixer_state_half_turn = 0" and c: "phaseCos mixer_state_half_turn = - 1"
    by (simp_all add: mixer_state_half_turn_def mixerInit_swash cfg half_turn_radians)
       (simp_all add: maths_exact_def)
  have len0: "MIXER_IN_STABILIZED_ROLL ?K < length (mixInput ?st0)"
    using example_indices by (simp add: mixerInit_fields)
  have roll: "mixInput mixer_state_half_turn ! MIXER_IN_STABILIZED_ROLL ?K = 1"
    using mixerSetInput_stored [OF len0, of ?K mixer_pg_half_turn True 1]
    by (simp add: mixer_state_half_turn_def inp example_reset_stabilised mixerInputClamp_def
        mixerOverrideValue_def float_of_int16_def)
  have "mixInput ?st0 ! MIXER_IN_STABILIZED_PITCH ?K = 0"
    using example_indices by (simp add: mixerInit_fields mixer_state_zero_def mixer_h_example_def)
  then have pitch: "mixInput mixer_state_half_turn ! MIXER_IN_STABILIZED_PITCH ?K = 0"
    using example_indices(1) by (simp add: mixer_state_half_turn_def mixerSetInput_other)
  have "mixerCyclicLimit_phase ?K mixer_state_half_turn = mixer_state_half_turn"
    using s by (rule mixerCyclicLimit_phase_skipped)
  then show ?thesis
    by (simp add: cfg s c roll pitch)
qed

subsection \<open>Tail motor lineariser: the bidirectional mode\<close>

lemma copysignf_sqrt: "copysignf (sqrt \<bar>yaw\<bar>) yaw = tailLinearBidirectional yaw"
  by (simp add: copysignf_def tailLinearBidirectional_def sgn_real_def)

lemma mixerUpdateMotorizedTail_bidirectional_eq:
  assumes "tail_rotor_mode (mixerConfig pg) = TAIL_MODE_BIDIRECTIONAL"
  shows "mixerUpdateMotorizedTail K pg spooledUp st =
           st\<lparr>tailMotorDirection :=
                 (if tailSpoolup spooledUp (mixInput st ! MIXER_IN_STABILIZED_THROTTLE K)
                       (tailIdleSnap (tailMotorIdle st) (real_of_int (sint (tailMotorDirection st)))
                          (tailLinearBidirectional (mixInput st ! MIXER_IN_STABILIZED_YAW K))) < 0
                  then - 1 else 1),
               mixInput := (mixInput st)[MIXER_IN_STABILIZED_YAW K :=
                  tailSpoolup spooledUp (mixInput st ! MIXER_IN_STABILIZED_THROTTLE K)
                    (tailIdleSnap (tailMotorIdle st) (real_of_int (sint (tailMotorDirection st)))
                       (tailLinearBidirectional (mixInput st ! MIXER_IN_STABILIZED_YAW K)))]\<rparr>"
proof -
  have snap: "(if t > - idle \<and> t < idle then d * idle else t) = tailIdleSnap idle d t" for t idle d :: real
    by (auto simp: tailIdleSnap_def)
  show ?thesis
    using assms
    by (simp add: mixerUpdateMotorizedTail_def mixerIsTailMode_def Let_def copysignf_sqrt snap
        tailSpoolup_def)
qed

text \<open>
  Claim C7, as the code has it. In the bidirectional mode the throttle written to the yaw
  slot is \<open>sign(yaw) * sqrt(|yaw|)\<close>, replaced by \<open>tailMotorDirection * idle\<close> when its
  magnitude is strictly below idle, and then gated by the spool-up. The direction that the
  update stores is \<open>-1\<close> when the throttle it has just written is negative and \<open>+1\<close>
  otherwise, also when that throttle is zero; setting an input does not change it, so the
  next update reads what this one stored, and it is 0 after start-up. Spooled up, a yaw of 0 with the stored
  direction \<open>+1\<close> gives the throttle \<open>+idle\<close> (for an idle that is not negative).
\<close>

theorem mixerUpdateMotorizedTail_bidirectional:
  assumes "tail_rotor_mode (mixerConfig pg) = TAIL_MODE_BIDIRECTIONAL"
      and "MIXER_IN_STABILIZED_YAW K < length (mixInput st)"
  shows "mixInput (mixerUpdateMotorizedTail K pg spooledUp st) ! MIXER_IN_STABILIZED_YAW K =
           tailSpoolup spooledUp (mixInput st ! MIXER_IN_STABILIZED_THROTTLE K)
             (tailIdleSnap (tailMotorIdle st) (real_of_int (sint (tailMotorDirection st)))
                (tailLinearBidirectional (mixInput st ! MIXER_IN_STABILIZED_YAW K)))
       \<and> tailMotorDirection (mixerUpdateMotorizedTail K pg spooledUp st) =
           (if mixInput (mixerUpdateMotorizedTail K pg spooledUp st) ! MIXER_IN_STABILIZED_YAW K < 0
            then - 1 else 1)
       \<and> tailMotorDirection (mixerSetInput K pg armed index v st) = tailMotorDirection st
       \<and> tailMotorDirection (mixerInit M K pg (mixer_state_zero K)) = 0
       \<and> (spooledUp \<and> mixInput st ! MIXER_IN_STABILIZED_YAW K = 0
            \<and> sint (tailMotorDirection st) = 1 \<and> 0 \<le> tailMotorIdle st \<longrightarrow>
          mixInput (mixerUpdateMotorizedTail K pg spooledUp st) ! MIXER_IN_STABILIZED_YAW K
            = tailMotorIdle st)"
proof -
  let ?st' = "mixerUpdateMotorizedTail K pg spooledUp st"
  let ?t = "tailSpoolup spooledUp (mixInput st ! MIXER_IN_STABILIZED_THROTTLE K)
             (tailIdleSnap (tailMotorIdle st) (real_of_int (sint (tailMotorDirection st)))
                (tailLinearBidirectional (mixInput st ! MIXER_IN_STABILIZED_YAW K)))"
  have yaw: "mixInput ?st' ! MIXER_IN_STABILIZED_YAW K = ?t"
    using assms by (simp add: mixerUpdateMotorizedTail_bidirectional_eq)
  have dir: "tailMotorDirection ?st' = (if ?t < 0 then - 1 else 1)"
    using assms(1) by (simp add: mixerUpdateMotorizedTail_bidirectional_eq)
  have ex: "?t = tailMotorIdle st"
    if "spooledUp \<and> mixInput st ! MIXER_IN_STABILIZED_YAW K = 0
        \<and> sint (tailMotorDirection st) = 1 \<and> 0 \<le> tailMotorIdle st"
    using that by (auto simp: tailSpoolup_def tailIdleSnap_def tailLinearBidirectional_def)
  have dir': "tailMotorDirection ?st' =
               (if mixInput ?st' ! MIXER_IN_STABILIZED_YAW K < 0 then - 1 else 1)"
    unfolding yaw by (rule dir)
  have ex': "spooledUp \<and> mixInput st ! MIXER_IN_STABILIZED_YAW K = 0
        \<and> sint (tailMotorDirection st) = 1 \<and> 0 \<le> tailMotorIdle st \<longrightarrow>
      mixInput ?st' ! MIXER_IN_STABILIZED_YAW K = tailMotorIdle st"
    unfolding yaw using ex by blast
  have keep: "tailMotorDirection (mixerSetInput K pg armed index v st) = tailMotorDirection st"
    by simp
  have init: "tailMotorDirection (mixerInit M K pg (mixer_state_zero K)) = 0"
    by (simp add: mixerInit_fields mixer_state_zero_def)
  show ?thesis
    using yaw dir' keep init ex' by blast
qed

lemma mixerUpdateMotorizedTail_length [simp]:
  "length (mixInput (mixerUpdateMotorizedTail K pg spooledUp st)) = length (mixInput st)"
  "tailMotorIdle (mixerUpdateMotorizedTail K pg spooledUp st) = tailMotorIdle st"
  by (simp_all add: mixerUpdateMotorizedTail_def Let_def)

lemma example_bidirectional_config:
  "tail_rotor_mode (mixerConfig mixer_pg_bidirectional) = TAIL_MODE_BIDIRECTIONAL"
  "mixerInputs mixer_pg_bidirectional = mixerInputs (mixer_pg_reset mixer_h_example)"
  "length (mixInput mixer_state_bidirectional) = 29"
  "tailMotorIdle mixer_state_bidirectional = 1 / 10"
  "tailMotorDirection mixer_state_bidirectional = 0"
  by (simp_all add: mixer_pg_bidirectional_def mixer_state_bidirectional_def mixerInit_fields
      mixerConfig_reset_def mixer_state_zero_def mixer_h_example_def)

text \<open>One tick of the tail stage in the example, armed, with demands within the limits.\<close>

lemma example_tail_tick:
  fixes sp :: bool
  assumes len: "length (mixInput st) = 29"
      and yd: "- 1 \<le> yd" "yd \<le> 1" and go: "- 1 \<le> go" "go \<le> 1"
  defines "st' \<equiv> mixerUpdateInputs_tail mixer_h_example mixer_pg_bidirectional True True sp yd go st"
  shows "mixInput st' ! MIXER_IN_STABILIZED_YAW mixer_h_example =
           tailSpoolup sp go (tailIdleSnap (tailMotorIdle st)
             (real_of_int (sint (tailMotorDirection st))) (tailLinearBidirectional yd))"
    and "tailMotorDirection st' =
           (if mixInput st' ! MIXER_IN_STABILIZED_YAW mixer_h_example < 0 then - 1 else 1)"
    and "length (mixInput st') = 29"
    and "tailMotorIdle st' = tailMotorIdle st"
proof -
  let ?K = mixer_h_example
  let ?pg = mixer_pg_bidirectional
  let ?Y = "MIXER_IN_STABILIZED_YAW ?K"
  let ?T = "MIXER_IN_STABILIZED_THROTTLE ?K"
  let ?s1 = "mixerSetInput ?K ?pg True ?Y yd st"
  let ?s2 = "mixerSetInput ?K ?pg True ?T go ?s1"
  have st': "st' = mixerUpdateMotorizedTail ?K ?pg sp ?s2"
    by (simp add: st'_def mixerUpdateInputs_tail_def Let_def)
  have lenY: "?Y < length (mixInput st)" and lenT: "?T < length (mixInput ?s1)"
    using example_indices len by simp_all
  have y1: "mixInput ?s1 ! ?Y = yd"
    using mixerSetInput_stored [OF lenY, of ?K ?pg True yd] yd
    by (simp add: example_bidirectional_config example_reset_stabilised mixerInputClamp_def
        mixerOverrideValue_def float_of_int16_def)
  have y2: "mixInput ?s2 ! ?Y = yd"
    using example_indices(6) y1 by (simp add: mixerSetInput_other)
  have t2: "mixInput ?s2 ! ?T = go"
    using mixerSetInput_stored [OF lenT, of ?K ?pg True go] go
    by (simp add: example_bidirectional_config example_reset_stabilised mixerInputClamp_def
        mixerOverrideValue_def float_of_int16_def)
  have lenY2: "?Y < length (mixInput ?s2)"
    using lenY by simp
  note eq = mixerUpdateMotorizedTail_bidirectional_eq
    [OF example_bidirectional_config(1), of ?K sp ?s2]
  show y': "mixInput st' ! ?Y =
           tailSpoolup sp go (tailIdleSnap (tailMotorIdle st)
             (real_of_int (sint (tailMotorDirection st))) (tailLinearBidirectional yd))"
    using lenY2 by (simp add: st' eq y2 t2)
  show "tailMotorDirection st' = (if mixInput st' ! ?Y < 0 then - 1 else 1)"
    unfolding y' by (simp add: st' eq y2 t2)
  show "length (mixInput st') = 29" "tailMotorIdle st' = tailMotorIdle st"
    using len by (simp_all add: st')
qed

lemma tailLinearBidirectional_values:
  "tailLinearBidirectional (- (1 / 4)) = - (1 / 2)" "tailLinearBidirectional 0 = 0"
proof -
  have "sqrt (1 / 4) = 1 / 2"
    by (rule real_sqrt_unique) (simp_all add: power2_eq_square)
  then show "tailLinearBidirectional (- (1 / 4)) = - (1 / 2)"
    by (simp add: tailLinearBidirectional_def)
  show "tailLinearBidirectional 0 = 0"
    by (simp add: tailLinearBidirectional_def)
qed

lemma example_tail_ticks:
  "mixInput mixer_tail_tick1 ! MIXER_IN_STABILIZED_YAW mixer_h_example = - 1 / 2"
  "mixInput mixer_tail_tick2 ! MIXER_IN_STABILIZED_YAW mixer_h_example = 0"
  "mixInput mixer_tail_tick3 ! MIXER_IN_STABILIZED_YAW mixer_h_example = 1 / 10"
  "tailMotorDirection mixer_tail_tick1 = - 1"
  "tailMotorDirection mixer_tail_tick2 = 1"
  "tailMotorIdle mixer_tail_tick2 = 1 / 10"
  "length (mixInput mixer_tail_tick2) = 29"
proof -
  note c = example_bidirectional_config
  have y1: "mixInput mixer_tail_tick1 ! MIXER_IN_STABILIZED_YAW mixer_h_example = - 1 / 2"
    unfolding mixer_tail_tick1_def
    by (subst example_tail_tick(1))
       (simp_all add: c tailLinearBidirectional_values tailIdleSnap_def tailSpoolup_def)
  have d1: "tailMotorDirection mixer_tail_tick1 = - 1"
    using y1 unfolding mixer_tail_tick1_def
    by (subst example_tail_tick(2)) (simp_all add: c)
  have l1: "length (mixInput mixer_tail_tick1) = 29"
    and i1: "tailMotorIdle mixer_tail_tick1 = 1 / 10"
    unfolding mixer_tail_tick1_def
    by (simp_all add: example_tail_tick(3,4) c)
  have y2: "mixInput mixer_tail_tick2 ! MIXER_IN_STABILIZED_YAW mixer_h_example = 0"
    unfolding mixer_tail_tick2_def
    by (subst example_tail_tick(1)) (simp_all add: l1 tailSpoolup_def)
  have d2: "tailMotorDirection mixer_tail_tick2 = 1"
    using y2 unfolding mixer_tail_tick2_def
    by (subst example_tail_tick(2)) (simp_all add: l1)
  have l2: "length (mixInput mixer_tail_tick2) = 29"
    and i2: "tailMotorIdle mixer_tail_tick2 = 1 / 10"
    unfolding mixer_tail_tick2_def
    by (simp_all add: example_tail_tick(3,4) l1 i1)
  have y3: "mixInput mixer_tail_tick3 ! MIXER_IN_STABILIZED_YAW mixer_h_example = 1 / 10"
    unfolding mixer_tail_tick3_def
    by (subst example_tail_tick(1))
       (simp_all add: l2 i2 d2 tailLinearBidirectional_values tailIdleSnap_def tailSpoolup_def)
  show "mixInput mixer_tail_tick1 ! MIXER_IN_STABILIZED_YAW mixer_h_example = - 1 / 2"
    "mixInput mixer_tail_tick2 ! MIXER_IN_STABILIZED_YAW mixer_h_example = 0"
    "mixInput mixer_tail_tick3 ! MIXER_IN_STABILIZED_YAW mixer_h_example = 1 / 10"
    "tailMotorDirection mixer_tail_tick1 = - 1"
    "tailMotorDirection mixer_tail_tick2 = 1"
    "tailMotorIdle mixer_tail_tick2 = 1 / 10"
    "length (mixInput mixer_tail_tick2) = 29"
    by (fact y1 y2 y3 d1 d2 i2 l2)+
qed

text \<open>
  The claim as the specification words it takes the idle direction to be the sign of the
  last computed throttle that was not zero. In the three ticks of the example the
  throttles written by the first two are \<open>-0.5\<close> and 0 (and the linearised throttles are the
  same), so that sign is \<open>-1\<close>; the second tick stored the direction \<open>+1\<close> for its zero
  throttle, and the third tick, whose linearised throttle 0 is below the idle 0.1, writes
  \<open>+0.1\<close> and not \<open>-0.1\<close>.
\<close>

theorem mixerUpdateMotorizedTail_direction_counterexample:
  "mixInput mixer_tail_tick1 ! MIXER_IN_STABILIZED_YAW mixer_h_example = - 1 / 2
   \<and> mixInput mixer_tail_tick2 ! MIXER_IN_STABILIZED_YAW mixer_h_example = 0
   \<and> lastNonzeroSign [mixInput mixer_tail_tick1 ! MIXER_IN_STABILIZED_YAW mixer_h_example,
                       mixInput mixer_tail_tick2 ! MIXER_IN_STABILIZED_YAW mixer_h_example] = - 1
   \<and> lastNonzeroSign [tailLinearBidirectional (- 1 / 4), tailLinearBidirectional 0] = - 1
   \<and> tailMotorIdle mixer_tail_tick2 = 1 / 10
   \<and> \<bar>tailLinearBidirectional 0\<bar> < tailMotorIdle mixer_tail_tick2
   \<and> mixInput mixer_tail_tick3 ! MIXER_IN_STABILIZED_YAW mixer_h_example = 1 / 10
   \<and> mixInput mixer_tail_tick3 ! MIXER_IN_STABILIZED_YAW mixer_h_example
       \<noteq> lastNonzeroSign [mixInput mixer_tail_tick1 ! MIXER_IN_STABILIZED_YAW mixer_h_example,
                           mixInput mixer_tail_tick2 ! MIXER_IN_STABILIZED_YAW mixer_h_example]
           * tailMotorIdle mixer_tail_tick2"
  by (simp add: example_tail_ticks tailLinearBidirectional_values lastNonzeroSign_def)

text \<open>
  The theorem at the third tick of the example: the yaw is 0, the stored direction is
  \<open>+1\<close> and the idle is 0.1; the update writes 0.1 and stores the direction \<open>+1\<close>.
\<close>

theorem mixerUpdateMotorizedTail_bidirectional_witness:
  "tail_rotor_mode (mixerConfig mixer_pg_bidirectional) = TAIL_MODE_BIDIRECTIONAL
   \<and> MIXER_IN_STABILIZED_YAW mixer_h_example < length (mixInput mixer_tail_tick3_inputs)
   \<and> mixInput mixer_tail_tick3_inputs ! MIXER_IN_STABILIZED_YAW mixer_h_example = 0
   \<and> sint (tailMotorDirection mixer_tail_tick3_inputs) = 1
   \<and> tailMotorIdle mixer_tail_tick3_inputs = 1 / 10
   \<and> mixInput (mixerUpdateMotorizedTail mixer_h_example mixer_pg_bidirectional True
         mixer_tail_tick3_inputs) ! MIXER_IN_STABILIZED_YAW mixer_h_example = 1 / 10
   \<and> tailMotorDirection (mixerUpdateMotorizedTail mixer_h_example mixer_pg_bidirectional True
         mixer_tail_tick3_inputs) = 1"
proof -
  let ?K = mixer_h_example
  let ?Y = "MIXER_IN_STABILIZED_YAW mixer_h_example"
  let ?T = "MIXER_IN_STABILIZED_THROTTLE mixer_h_example"
  let ?st = mixer_tail_tick3_inputs
  let ?s1 = "mixerSetInput ?K mixer_pg_bidirectional True ?Y 0 mixer_tail_tick2"
  let ?st' = "mixerUpdateMotorizedTail ?K mixer_pg_bidirectional True ?st"
  note c = example_bidirectional_config
  have len: "?Y < length (mixInput ?st)" and len2: "?Y < length (mixInput mixer_tail_tick2)"
    using example_indices by (simp_all add: mixer_tail_tick3_inputs_def example_tail_ticks)
  have "mixInput ?s1 ! ?Y = 0"
    using mixerSetInput_stored [OF len2, of ?K mixer_pg_bidirectional True 0]
    by (simp add: c example_reset_stabilised mixerInputClamp_def mixerOverrideValue_def
        float_of_int16_def)
  then have yaw: "mixInput ?st ! ?Y = 0"
    using example_indices(6) by (simp add: mixer_tail_tick3_inputs_def mixerSetInput_other)
  have dir: "sint (tailMotorDirection ?st) = 1"
    by (simp add: mixer_tail_tick3_inputs_def example_tail_ticks)
  have idle: "tailMotorIdle ?st = 1 / 10"
    by (simp add: mixer_tail_tick3_inputs_def example_tail_ticks)
  note T = mixerUpdateMotorizedTail_bidirectional [OF c(1) len, where spooledUp = True
      and armed = True and index = 0 and v = 0]
  have "True \<and> mixInput ?st ! ?Y = 0 \<and> sint (tailMotorDirection ?st) = 1
      \<and> 0 \<le> tailMotorIdle ?st"
    by (simp add: yaw dir idle)
  with T have "mixInput ?st' ! ?Y = tailMotorIdle ?st"
    by blast
  then have y': "mixInput ?st' ! ?Y = 1 / 10"
    by (simp only: idle)
  have "tailMotorDirection ?st' = (if mixInput ?st' ! ?Y < 0 then - 1 else 1)"
    using T by blast
  then have d': "tailMotorDirection ?st' = 1"
    by (simp add: y')
  show ?thesis
    using c(1) len yaw dir idle y' d' by blast
qed

subsection \<open>Tail motor lineariser: the motorized mode\<close>

lemma mixerUpdateMotorizedTail_motorized_eq:
  assumes "tail_rotor_mode (mixerConfig pg) = TAIL_MODE_MOTORIZED"
  shows "mixerUpdateMotorizedTail K pg spooledUp st =
           st\<lparr>mixInput := (mixInput st)[MIXER_IN_STABILIZED_YAW K :=
                  tailSpoolup spooledUp (mixInput st ! MIXER_IN_STABILIZED_THROTTLE K)
                    (max (sqrt (max (mixInput st ! MIXER_IN_STABILIZED_YAW K) 0))
                         (tailMotorIdle st))]\<rparr>"
  using assms
  by (simp add: mixerUpdateMotorizedTail_def mixerIsTailMode_def Let_def tailSpoolup_def)

text \<open>
  Claim C8. In the motorized (unidirectional) mode the throttle written to the yaw slot
  is \<open>sqrt(max(yaw, 0))\<close> raised to the idle; while not spooled up it is 0 when the main
  throttle is below 0.01 and is scaled by \<open>mainThrottle / 0.20\<close> when the main throttle is
  from 0.01 up to 0.20; it is never negative. Spooled up, with the idle of a configuration
  in \<open>[0, 0.5]\<close>, a yaw of 0.25 gives 0.5 and a yaw of \<open>-0.1\<close> gives the idle.
\<close>

theorem mixerUpdateMotorizedTail_motorized:
  assumes "tail_rotor_mode (mixerConfig pg) = TAIL_MODE_MOTORIZED"
      and "MIXER_IN_STABILIZED_YAW K < length (mixInput st)"
  shows "(spooledUp \<longrightarrow>
            mixInput (mixerUpdateMotorizedTail K pg spooledUp st) ! MIXER_IN_STABILIZED_YAW K =
              max (sqrt (max (mixInput st ! MIXER_IN_STABILIZED_YAW K) 0)) (tailMotorIdle st))
       \<and> (\<not> spooledUp \<and> mixInput st ! MIXER_IN_STABILIZED_THROTTLE K < 1 / 100 \<longrightarrow>
            mixInput (mixerUpdateMotorizedTail K pg spooledUp st) ! MIXER_IN_STABILIZED_YAW K = 0)
       \<and> (\<not> spooledUp \<and> 1 / 100 \<le> mixInput st ! MIXER_IN_STABILIZED_THROTTLE K
             \<and> mixInput st ! MIXER_IN_STABILIZED_THROTTLE K < 20 / 100 \<longrightarrow>
            mixInput (mixerUpdateMotorizedTail K pg spooledUp st) ! MIXER_IN_STABILIZED_YAW K =
              max (sqrt (max (mixInput st ! MIXER_IN_STABILIZED_YAW K) 0)) (tailMotorIdle st)
                * (mixInput st ! MIXER_IN_STABILIZED_THROTTLE K / (20 / 100)))
       \<and> (\<not> spooledUp \<and> 20 / 100 \<le> mixInput st ! MIXER_IN_STABILIZED_THROTTLE K \<longrightarrow>
            mixInput (mixerUpdateMotorizedTail K pg spooledUp st) ! MIXER_IN_STABILIZED_YAW K =
              max (sqrt (max (mixInput st ! MIXER_IN_STABILIZED_YAW K) 0)) (tailMotorIdle st))
       \<and> 0 \<le> mixInput (mixerUpdateMotorizedTail K pg spooledUp st) ! MIXER_IN_STABILIZED_YAW K
       \<and> (spooledUp \<and> mixInput st ! MIXER_IN_STABILIZED_YAW K = 1 / 4
             \<and> tailMotorIdle st \<le> 1 / 2 \<longrightarrow>
            mixInput (mixerUpdateMotorizedTail K pg spooledUp st) ! MIXER_IN_STABILIZED_YAW K = 1 / 2)
       \<and> (spooledUp \<and> mixInput st ! MIXER_IN_STABILIZED_YAW K = - (1 / 10)
             \<and> 0 \<le> tailMotorIdle st \<longrightarrow>
            mixInput (mixerUpdateMotorizedTail K pg spooledUp st) ! MIXER_IN_STABILIZED_YAW K
              = tailMotorIdle st)"
proof -
  let ?yaw = "mixInput st ! MIXER_IN_STABILIZED_YAW K"
  let ?thr = "mixInput st ! MIXER_IN_STABILIZED_THROTTLE K"
  let ?lin = "max (sqrt (max ?yaw 0)) (tailMotorIdle st)"
  let ?out = "mixInput (mixerUpdateMotorizedTail K pg spooledUp st) ! MIXER_IN_STABILIZED_YAW K"
  have out: "?out = tailSpoolup spooledUp ?thr ?lin"
    using assms by (simp add: mixerUpdateMotorizedTail_motorized_eq)
  have "0 \<le> sqrt (max ?yaw 0)"
    by simp
  then have lin0: "0 \<le> ?lin"
    by (rule max.coboundedI1)
  have quarter: "sqrt (1 / 4) = 1 / 2"
    by (rule real_sqrt_unique) (simp_all add: power2_eq_square)
  have a: "spooledUp \<longrightarrow> ?out = ?lin"
    and b: "\<not> spooledUp \<and> ?thr < 1 / 100 \<longrightarrow> ?out = 0"
    and c: "\<not> spooledUp \<and> 1 / 100 \<le> ?thr \<and> ?thr < 20 / 100 \<longrightarrow> ?out = ?lin * (?thr / (20 / 100))"
    and d: "\<not> spooledUp \<and> 20 / 100 \<le> ?thr \<longrightarrow> ?out = ?lin"
    unfolding out by (simp_all add: tailSpoolup_def)
  have e: "0 \<le> ?out"
    unfolding out using lin0 by (auto simp: tailSpoolup_def)
  have f: "spooledUp \<and> ?yaw = 1 / 4 \<and> tailMotorIdle st \<le> 1 / 2 \<longrightarrow> ?out = 1 / 2"
  proof
    assume h: "spooledUp \<and> ?yaw = 1 / 4 \<and> tailMotorIdle st \<le> 1 / 2"
    then have y: "?yaw = 1 / 4" and i: "tailMotorIdle st \<le> 1 / 2"
      by blast+
    have m: "max ?yaw 0 = 1 / 4"
      unfolding y by simp
    have "?lin = max (1 / 2) (tailMotorIdle st)"
      by (simp only: m quarter)
    also have "\<dots> = 1 / 2"
      using i by (rule max_absorb1)
    finally have lin: "?lin = 1 / 2" .
    from a h have "?out = ?lin"
      by blast
    then show "?out = 1 / 2"
      using lin by (rule trans)
  qed
  have g: "spooledUp \<and> ?yaw = - (1 / 10) \<and> 0 \<le> tailMotorIdle st \<longrightarrow> ?out = tailMotorIdle st"
  proof
    assume h: "spooledUp \<and> ?yaw = - (1 / 10) \<and> 0 \<le> tailMotorIdle st"
    then have y: "?yaw = - (1 / 10)" and i: "0 \<le> tailMotorIdle st"
      by blast+
    have m: "max ?yaw 0 = 0"
      unfolding y by simp
    have "?lin = max 0 (tailMotorIdle st)"
      by (simp only: m real_sqrt_zero)
    also have "\<dots> = tailMotorIdle st"
      using i by (rule max_absorb2)
    finally have lin: "?lin = tailMotorIdle st" .
    from a h have "?out = ?lin"
      by blast
    then show "?out = tailMotorIdle st"
      using lin by (rule trans)
  qed
  show ?thesis
    using a b c d e f g by blast
qed

lemma example_motorized_inputs:
  assumes "- 1 \<le> yd" "yd \<le> 1" "- 1 \<le> go" "go \<le> 1"
  shows "mixInput (mixer_motorized_inputs yd go) ! MIXER_IN_STABILIZED_YAW mixer_h_example = yd"
    and "mixInput (mixer_motorized_inputs yd go) ! MIXER_IN_STABILIZED_THROTTLE mixer_h_example = go"
    and "MIXER_IN_STABILIZED_YAW mixer_h_example < length (mixInput (mixer_motorized_inputs yd go))"
    and "tailMotorIdle (mixer_motorized_inputs yd go) = 1 / 10"
proof -
  let ?K = mixer_h_example
  let ?pg = mixer_pg_motorized
  let ?Y = "MIXER_IN_STABILIZED_YAW ?K"
  let ?T = "MIXER_IN_STABILIZED_THROTTLE ?K"
  let ?s0 = "mixerInit maths_exact ?K ?pg (mixer_state_zero ?K)"
  let ?s1 = "mixerSetInput ?K ?pg True ?Y yd ?s0"
  have inp: "mixerInputs ?pg = mixerInputs (mixer_pg_reset ?K)"
    and idle: "tail_motor_idle (mixerConfig ?pg) = 100"
    by (simp_all add: mixer_pg_motorized_def)
  have lenY: "?Y < length (mixInput ?s0)" and lenT: "?T < length (mixInput ?s1)"
    using example_indices by (simp_all add: mixerInit_fields)
  have y1: "mixInput ?s1 ! ?Y = yd"
    using mixerSetInput_stored [OF lenY, of ?K ?pg True yd] assms
    by (simp add: inp example_reset_stabilised mixerInputClamp_def mixerOverrideValue_def
        float_of_int16_def)
  show "mixInput (mixer_motorized_inputs yd go) ! ?Y = yd"
    using example_indices(6) y1 by (simp add: mixer_motorized_inputs_def mixerSetInput_other)
  show "mixInput (mixer_motorized_inputs yd go) ! ?T = go"
    using mixerSetInput_stored [OF lenT, of ?K ?pg True go] assms
    by (simp add: mixer_motorized_inputs_def inp example_reset_stabilised mixerInputClamp_def
        mixerOverrideValue_def float_of_int16_def)
  show "?Y < length (mixInput (mixer_motorized_inputs yd go))"
    using lenY by (simp add: mixer_motorized_inputs_def)
  show "tailMotorIdle (mixer_motorized_inputs yd go) = 1 / 10"
    by (simp add: mixer_motorized_inputs_def mixerInit_fields idle)
qed

text \<open>
  The theorem with the idle 0.1: spooled up, yaw 0.25 gives 0.5 and yaw \<open>-0.1\<close> gives 0.1;
  not spooled up with the main throttle at 0, the throttle is 0.
\<close>

theorem mixerUpdateMotorizedTail_motorized_witness:
  "tail_rotor_mode (mixerConfig mixer_pg_motorized) = TAIL_MODE_MOTORIZED
   \<and> MIXER_IN_STABILIZED_YAW mixer_h_example < length (mixInput (mixer_motorized_inputs (1 / 4) (1 / 2)))
   \<and> mixInput (mixer_motorized_inputs (1 / 4) (1 / 2)) ! MIXER_IN_STABILIZED_YAW mixer_h_example = 1 / 4
   \<and> tailMotorIdle (mixer_motorized_inputs (1 / 4) (1 / 2)) \<le> 1 / 2
   \<and> mixInput (mixerUpdateMotorizedTail mixer_h_example mixer_pg_motorized True
         (mixer_motorized_inputs (1 / 4) (1 / 2))) ! MIXER_IN_STABILIZED_YAW mixer_h_example = 1 / 2
   \<and> mixInput (mixer_motorized_inputs (- (1 / 10)) (1 / 2)) ! MIXER_IN_STABILIZED_YAW mixer_h_example = - (1 / 10)
   \<and> mixInput (mixerUpdateMotorizedTail mixer_h_example mixer_pg_motorized True
         (mixer_motorized_inputs (- (1 / 10)) (1 / 2))) ! MIXER_IN_STABILIZED_YAW mixer_h_example = 1 / 10
   \<and> mixInput (mixerUpdateMotorizedTail mixer_h_example mixer_pg_motorized False
         (mixer_motorized_inputs (1 / 4) 0)) ! MIXER_IN_STABILIZED_YAW mixer_h_example = 0"
proof -
  let ?K = mixer_h_example
  let ?pg = mixer_pg_motorized
  let ?Y = "MIXER_IN_STABILIZED_YAW mixer_h_example"
  let ?T = "MIXER_IN_STABILIZED_THROTTLE mixer_h_example"
  let ?a = "mixer_motorized_inputs (1 / 4) (1 / 2)"
  let ?b = "mixer_motorized_inputs (- (1 / 10)) (1 / 2)"
  let ?c = "mixer_motorized_inputs (1 / 4) 0"
  have m: "tail_rotor_mode (mixerConfig ?pg) = TAIL_MODE_MOTORIZED"
    by (simp add: mixer_pg_motorized_def)
  have ya: "mixInput ?a ! ?Y = 1 / 4" and la: "?Y < length (mixInput ?a)"
    and ia: "tailMotorIdle ?a = 1 / 10"
    by (rule example_motorized_inputs; simp)+
  have yb: "mixInput ?b ! ?Y = - (1 / 10)" and lb: "?Y < length (mixInput ?b)"
    and ib: "tailMotorIdle ?b = 1 / 10"
    by (rule example_motorized_inputs; simp)+
  have tc: "mixInput ?c ! ?T = 0" and lc: "?Y < length (mixInput ?c)"
    by (rule example_motorized_inputs; simp)+
  have ia': "tailMotorIdle ?a \<le> 1 / 2" and ib': "0 \<le> tailMotorIdle ?b"
    and tc': "mixInput ?c ! ?T < 1 / 100"
    by (simp_all add: ia ib tc)
  note Ta = mixerUpdateMotorizedTail_motorized [OF m la, of True]
  note Tb = mixerUpdateMotorizedTail_motorized [OF m lb, of True]
  note Tc = mixerUpdateMotorizedTail_motorized [OF m lc, of False]
  have "mixInput (mixerUpdateMotorizedTail ?K ?pg True ?a) ! ?Y = 1 / 2"
    using Ta ya ia' by blast
  moreover have "mixInput (mixerUpdateMotorizedTail ?K ?pg True ?b) ! ?Y = tailMotorIdle ?b"
    using Tb yb ib' by blast
  then have "mixInput (mixerUpdateMotorizedTail ?K ?pg True ?b) ! ?Y = 1 / 10"
    by (simp only: ib)
  moreover have "mixInput (mixerUpdateMotorizedTail ?K ?pg False ?c) ! ?Y = 0"
    using Tc tc' by blast
  ultimately show ?thesis
    using m la ya ia' yb by blast
qed

subsection \<open>Saturation tracker: from an output to its inputs\<close>

lemma BIT_test: "m AND BIT i \<noteq> 0 \<longleftrightarrow> bit m i" for m :: uint32_t
  by (simp add: BIT_def bit_iff_and_push_bit_not_eq_0)

lemma mixerSaturateOutput_loop:
  "foldl (\<lambda>s i. if mixOutputMap s ! unat index AND BIT i \<noteq> 0
                 then mixerSaturateInput K (of_nat i) s else s) st ns =
     st\<lparr>mixSaturated :=
          foldl (\<lambda>xs i. if bit (mixOutputMap st ! unat index) i
                         then xs[unat (of_nat i :: uint8_t) := of_nat (MIXER_SATURATION_TIME K)]
                         else xs)
            (mixSaturated st) ns\<rparr>"
  by (induction ns arbitrary: st) (simp_all add: mixerSaturateInput_def BIT_test)

lemma mixerSaturateOutput_eq:
  assumes "MIXER_INPUT_COUNT K \<le> 256"
  shows "mixerSaturateOutput K index st =
     st\<lparr>mixSaturated :=
          foldl (\<lambda>xs i. if bit (mixOutputMap st ! unat index) i
                         then xs[i := of_nat (MIXER_SATURATION_TIME K)] else xs)
            (mixSaturated st) [1..<MIXER_INPUT_COUNT K]\<rparr>"
proof -
  have "foldl (\<lambda>xs i. if bit (mixOutputMap st ! unat index) i
                         then xs[unat (of_nat i :: uint8_t) := of_nat (MIXER_SATURATION_TIME K)]
                         else xs) (mixSaturated st) [1..<MIXER_INPUT_COUNT K]
      = foldl (\<lambda>xs i. if bit (mixOutputMap st ! unat index) i
                         then xs[i := of_nat (MIXER_SATURATION_TIME K)] else xs)
            (mixSaturated st) [1..<MIXER_INPUT_COUNT K]"
    using assms by (intro foldl_cong) (simp_all add: unat_of_nat_uint8)
  then show ?thesis
    by (simp add: mixerSaturateOutput_def mixerSaturateOutput_loop)
qed

text \<open>
  Claim C9, as the code has it. With at most 32 inputs (the width of the contributor
  bitmap), \<^verbatim>\<open>mixerSaturateOutput\<close> sets the saturation counter to \<^verbatim>\<open>MIXER_SATURATION_TIME\<close>
  for exactly the inputs from 1 to \<open>MIXER_INPUT_COUNT - 1\<close> whose bit is set in the bitmap of
  the output, and changes neither another counter nor anything else of the state. Input
  0 is not visited: the loop starts at 1.
\<close>

theorem mixerSaturateOutput_contributors:
  assumes "MIXER_INPUT_COUNT K \<le> 32"
  shows "(\<forall>i < length (mixSaturated st).
            mixSaturated (mixerSaturateOutput K index st) ! i =
              (if 1 \<le> i \<and> i < MIXER_INPUT_COUNT K \<and> bit (mixOutputMap st ! unat index) i
               then of_nat (MIXER_SATURATION_TIME K) else mixSaturated st ! i))
       \<and> length (mixSaturated (mixerSaturateOutput K index st)) = length (mixSaturated st)
       \<and> mixerSaturateOutput K index st =
           st\<lparr>mixSaturated := mixSaturated (mixerSaturateOutput K index st)\<rparr>"
proof -
  have le: "MIXER_INPUT_COUNT K \<le> 256"
    using assms by simp
  show ?thesis
    by (auto simp: mixerSaturateOutput_eq [OF le] foldl_cond_update_nth)
qed

lemma example_contributor:
  "mixOutputMap (mixer_state_contributor src) ! 4 = BIT (unat src)"
  "mixSaturated (mixer_state_contributor src) = replicate 29 0"
proof -
  let ?r = "\<lparr>mode = 0, oper = MIXER_OP_SET, input_idx = src, output_idx = 4, offset = 0, weight = 1000\<rparr>"
  have "mixerRuleApplies (flightModeMask 0) ?r" "oper ?r = MIXER_OP_SET"
    "unat (output_idx ?r) < length (mixOutput mixer_state_example)"
    "unat (output_idx ?r) < length (mixOutputMap mixer_state_example)"
    by (simp_all add: mixerRuleApplies_def MIXER_OP_SET_def)
  from mixerUpdate_rule_SET(2) [OF this, of "mixer_pg_reset mixer_h_example"]
  show "mixOutputMap (mixer_state_contributor src) ! 4 = BIT (unat src)"
    by (simp add: mixer_state_contributor_def)
  show "mixSaturated (mixer_state_contributor src) = replicate 29 0"
    by (simp add: mixer_state_contributor_def mixerUpdate_rule_def Let_def
        mixer_state_example_def mixerInit_fields mixer_state_zero_def mixer_h_example_def)
qed

lemma example_input_count: "MIXER_INPUT_COUNT mixer_h_example \<le> 32"
  by (simp add: mixer_h_example_def)

text \<open>
  The theorem after a \<^verbatim>\<open>SET\<close> rule from input 2 to output 4: saturating output 4 sets the
  counter of input 2 to 8 and leaves the counter of input 3 at 0.
\<close>

theorem mixerSaturateOutput_contributors_witness:
  "MIXER_INPUT_COUNT mixer_h_example \<le> 32
   \<and> (2::nat) < length (mixSaturated (mixer_state_contributor 2))
   \<and> bit (mixOutputMap (mixer_state_contributor 2) ! 4) (2::nat)
   \<and> \<not> bit (mixOutputMap (mixer_state_contributor 2) ! 4) (3::nat)
   \<and> mixSaturated (mixerSaturateOutput mixer_h_example 4 (mixer_state_contributor 2)) ! 2 = 8
   \<and> mixSaturated (mixerSaturateOutput mixer_h_example 4 (mixer_state_contributor 2)) ! 3 = 0"
proof -
  let ?K = mixer_h_example
  let ?st = "mixer_state_contributor 2"
  let ?st' = "mixerSaturateOutput ?K 4 ?st"
  have len: "(2::nat) < length (mixSaturated ?st)" "(3::nat) < length (mixSaturated ?st)"
    by (simp_all add: example_contributor)
  have b2: "bit (mixOutputMap ?st ! 4) (2::nat)"
    and b3: "\<not> bit (mixOutputMap ?st ! 4) (3::nat)"
    by (simp_all add: example_contributor BIT_def bit_simps)
  have in2: "1 \<le> (2::nat) \<and> 2 < MIXER_INPUT_COUNT ?K"
    by (simp add: mixer_h_example_def)
  have old3: "mixSaturated ?st ! 3 = 0"
    by (simp add: example_contributor)
  have u: "unat (4 :: uint8_t) = 4"
    by simp
  note T = mixerSaturateOutput_contributors [OF example_input_count, of ?st 4, unfolded u]
  have "mixSaturated ?st' ! 2 =
          (if 1 \<le> (2::nat) \<and> 2 < MIXER_INPUT_COUNT ?K \<and> bit (mixOutputMap ?st ! 4) 2
           then of_nat (MIXER_SATURATION_TIME ?K) else mixSaturated ?st ! 2)"
    using T len(1) by blast
  then have s2: "mixSaturated ?st' ! 2 = 8"
    using in2 b2 by (simp only: if_True example_saturation_time(2) simp_thms)
  have "mixSaturated ?st' ! 3 =
          (if 1 \<le> (3::nat) \<and> 3 < MIXER_INPUT_COUNT ?K \<and> bit (mixOutputMap ?st ! 4) 3
           then of_nat (MIXER_SATURATION_TIME ?K) else mixSaturated ?st ! 3)"
    using T len(2) by blast
  then have s3: "mixSaturated ?st' ! 3 = 0"
    using b3 by (simp only: if_False old3 simp_thms)
  show ?thesis
    using example_input_count len(1) b2 b3 s2 s3 by blast
qed

text \<open>
  The claim as the specification words it covers every input whose bit is set. After a
  \<^verbatim>\<open>SET\<close> rule from input 0 to output 4, bit 0 of the bitmap of output 4 is set, and
  saturating output 4 leaves the counter of input 0 at 0.
\<close>

theorem mixerSaturateOutput_contributors_counterexample:
  "bit (mixOutputMap (mixer_state_contributor 0) ! 4) (0::nat)
   \<and> mixSaturated (mixerSaturateOutput mixer_h_example 4 (mixer_state_contributor 0)) ! 0
       \<noteq> of_nat (MIXER_SATURATION_TIME mixer_h_example)"
proof -
  have le: "MIXER_INPUT_COUNT mixer_h_example \<le> 256"
    by (simp add: mixer_h_example_def)
  have "mixSaturated (mixerSaturateOutput mixer_h_example 4 (mixer_state_contributor 0)) ! 0 = 0"
    by (simp add: mixerSaturateOutput_eq [OF le] foldl_cond_update_nth example_contributor)
  then show ?thesis
    by (simp add: example_contributor BIT_def example_saturation_time(2))
qed

subsection \<open>Loader: persisted rules without an operator\<close>

lemma mixerInit_rules:
  "rules (mixerInit M K pg st) ! i =
     (if i < MIXER_RULE_COUNT K \<and> i < length (rules st) \<and> oper (mixerRules pg ! i) \<noteq> 0
      then mixerInit_slot K (mixerRules pg ! i) (rules st ! i) else rules st ! i)"
  by (simp add: mixerInit_def mixerInitSwash_def Let_def mixerInit_override_loop
      mixerInit_rules_loop
      foldl_slot_update_nth [where P = "\<lambda>i. oper (mixerRules pg ! i) \<noteq> 0"
        and f = "\<lambda>i. mixerInit_slot K (mixerRules pg ! i)"])

lemma length_rules_mixerInit [simp]:
  "length (rules (mixerInit M K pg st)) = length (rules st)"
  by (simp add: mixerInit_def mixerInitSwash_def Let_def mixerInit_override_loop
      mixerInit_rules_loop
      length_foldl_slot_update [where P = "\<lambda>i. oper (mixerRules pg ! i) \<noteq> 0"
        and f = "\<lambda>i. mixerInit_slot K (mixerRules pg ! i)"])

lemma mixerInit_slot_oper:
  assumes "oper rule \<noteq> 0"
  shows "oper (mixerInit_slot K rule slot) \<noteq> 0"
proof -
  have "uint (oper rule) \<noteq> 0"
    using assms by (simp add: uint_0_iff)
  then have pos: "1 \<le> uint (oper rule)"
    using uint_ge_0 [of "oper rule"] by linarith
  let ?c = "constrain (uint (oper rule)) 0 (MIXER_OP_COUNT - 1)"
  have "1 \<le> ?c" "?c \<le> 3"
    using pos by (simp_all add: constrain_def MIXER_OP_COUNT_def)
  then have "uint (of_int ?c :: uint8_t) = ?c"
    by (simp add: uint_word_of_int take_bit_int_eq_self)
  then have "(of_int ?c :: uint8_t) \<noteq> 0"
    using \<open>1 \<le> ?c\<close> by (metis not_one_le_zero uint_0_eq)
  then show ?thesis
    by (simp add: mixerInit_slot_def)
qed

text \<open>
  Claim C10. \<^verbatim>\<open>mixerInit\<close> skips a persisted rule whose operator is \<^verbatim>\<open>NONE\<close>: the slot of the
  internal table keeps what it held before the call. So when a slot was loaded from an
  operative rule and the configuration is then changed to \<^verbatim>\<open>NONE\<close> for that slot, a second
  \<^verbatim>\<open>mixerInit\<close> leaves the slot as the first one loaded it: its operator is still not
  \<^verbatim>\<open>NONE\<close>, and with gate mask 0 the rule engine still applies it.
\<close>

theorem mixerInit_rule_none_kept:
  "(oper (mixerRules pg ! i) = MIXER_OP_NONE \<longrightarrow>
      rules (mixerInit M K pg st) ! i = rules st ! i)
   \<and> (i < MIXER_RULE_COUNT K \<and> i < length (rules st)
        \<and> oper (mixerRules pg ! i) \<noteq> MIXER_OP_NONE \<and> oper (mixerRules pg' ! i) = MIXER_OP_NONE \<longrightarrow>
      rules (mixerInit M K pg st) ! i = mixerInit_slot K (mixerRules pg ! i) (rules st ! i)
      \<and> rules (mixerInit M K pg' (mixerInit M K pg st)) ! i = rules (mixerInit M K pg st) ! i
      \<and> oper (rules (mixerInit M K pg' (mixerInit M K pg st)) ! i) \<noteq> MIXER_OP_NONE
      \<and> (mode (mixerRules pg ! i) = 0 \<longrightarrow>
           mixerRuleApplies fmask (rules (mixerInit M K pg' (mixerInit M K pg st)) ! i)))"
proof (intro conjI impI)
  assume "oper (mixerRules pg ! i) = MIXER_OP_NONE"
  then show "rules (mixerInit M K pg st) ! i = rules st ! i"
    by (simp add: mixerInit_rules MIXER_OP_NONE_def)
next
  assume h: "i < MIXER_RULE_COUNT K \<and> i < length (rules st)
        \<and> oper (mixerRules pg ! i) \<noteq> MIXER_OP_NONE \<and> oper (mixerRules pg' ! i) = MIXER_OP_NONE"
  then have on: "oper (mixerRules pg ! i) \<noteq> 0" and off: "oper (mixerRules pg' ! i) = 0"
    by (simp_all add: MIXER_OP_NONE_def)
  show first: "rules (mixerInit M K pg st) ! i = mixerInit_slot K (mixerRules pg ! i) (rules st ! i)"
    using h on by (simp add: mixerInit_rules)
  show kept: "rules (mixerInit M K pg' (mixerInit M K pg st)) ! i = rules (mixerInit M K pg st) ! i"
    using off by (simp add: mixerInit_rules [of M K pg'])
  show active: "oper (rules (mixerInit M K pg' (mixerInit M K pg st)) ! i) \<noteq> MIXER_OP_NONE"
    unfolding kept first MIXER_OP_NONE_def using on by (rule mixerInit_slot_oper)
  assume "mode (mixerRules pg ! i) = 0"
  then have "mode (rules (mixerInit M K pg' (mixerInit M K pg st)) ! i) = 0"
    unfolding kept first by (simp add: mixerInit_slot_def)
  then show "mixerRuleApplies fmask (rules (mixerInit M K pg' (mixerInit M K pg st)) ! i)"
    using active by (simp add: mixerRuleApplies_def MIXER_OP_NONE_def)
qed

lemma example_one_rule:
  "mixerRules mixer_pg_one_rule ! 2 =
     \<lparr>mode = 0, oper = MIXER_OP_SET, input_idx = 2, output_idx = 4, offset = 0, weight = 1000\<rparr>"
  "mixerRules (mixer_pg_reset mixer_h_example) ! 2 = mixerRule_zero"
  "mixerInit_slot mixer_h_example
     \<lparr>mode = 0, oper = MIXER_OP_SET, input_idx = 2, output_idx = 4, offset = 0, weight = 1000\<rparr>
     mixerRule_zero =
     \<lparr>mode = 0, oper = MIXER_OP_SET, input_idx = 2, output_idx = 4, offset = 0, weight = 1000\<rparr>"
  by code_simp+

text \<open>
  The theorem for slot 2: the first start-up loads the \<^verbatim>\<open>SET\<close> rule, the second one runs
  with the reset configuration (all operators \<^verbatim>\<open>NONE\<close>), and the slot still holds the rule.
\<close>

theorem mixerInit_rule_none_kept_witness:
  "(2::nat) < MIXER_RULE_COUNT mixer_h_example
   \<and> (2::nat) < length (rules (mixer_state_zero mixer_h_example))
   \<and> oper (mixerRules mixer_pg_one_rule ! 2) \<noteq> MIXER_OP_NONE
   \<and> oper (mixerRules (mixer_pg_reset mixer_h_example) ! 2) = MIXER_OP_NONE
   \<and> mode (mixerRules mixer_pg_one_rule ! 2) = 0
   \<and> rules (mixerInit maths_exact mixer_h_example (mixer_pg_reset mixer_h_example)
         (mixerInit maths_exact mixer_h_example mixer_pg_one_rule
            (mixer_state_zero mixer_h_example))) ! 2
       = \<lparr>mode = 0, oper = MIXER_OP_SET, input_idx = 2, output_idx = 4, offset = 0, weight = 1000\<rparr>
   \<and> mixerRuleApplies (flightModeMask 0)
        (rules (mixerInit maths_exact mixer_h_example (mixer_pg_reset mixer_h_example)
           (mixerInit maths_exact mixer_h_example mixer_pg_one_rule
              (mixer_state_zero mixer_h_example))) ! 2)"
proof -
  let ?K = mixer_h_example
  let ?pg = mixer_pg_one_rule
  let ?pg' = "mixer_pg_reset mixer_h_example"
  let ?st = "mixer_state_zero mixer_h_example"
  let ?r = "\<lparr>mode = 0, oper = MIXER_OP_SET, input_idx = 2, output_idx = 4, offset = 0, weight = 1000\<rparr>"
  have h1: "(2::nat) < MIXER_RULE_COUNT ?K"
    by (simp add: mixer_h_example_def)
  have h2: "(2::nat) < length (rules ?st)"
    by simp
  have h3: "oper (mixerRules ?pg ! 2) \<noteq> MIXER_OP_NONE"
    by (simp add: example_one_rule MIXER_OP_NONE_def MIXER_OP_SET_def)
  have h4: "oper (mixerRules ?pg' ! 2) = MIXER_OP_NONE"
    by (simp add: example_one_rule MIXER_OP_NONE_def mixerRule_zero_def)
  note h = conjI [OF h1 conjI [OF h2 conjI [OF h3 h4]]]
  have m: "mode (mixerRules ?pg ! 2) = 0"
    by (simp add: example_one_rule)
  have old: "rules ?st ! 2 = mixerRule_zero"
    by code_simp
  note T' = mixerInit_rule_none_kept [of ?pg 2 maths_exact ?K ?st ?pg' "flightModeMask 0"]
  have a: "rules (mixerInit maths_exact ?K ?pg ?st) ! 2
          = mixerInit_slot ?K (mixerRules ?pg ! 2) (rules ?st ! 2)"
    using T' h by blast
  have b: "rules (mixerInit maths_exact ?K ?pg' (mixerInit maths_exact ?K ?pg ?st)) ! 2
          = rules (mixerInit maths_exact ?K ?pg ?st) ! 2"
    using T' h by blast
  from b a have "rules (mixerInit maths_exact ?K ?pg' (mixerInit maths_exact ?K ?pg ?st)) ! 2
          = mixerInit_slot ?K (mixerRules ?pg ! 2) (rules ?st ! 2)"
    by (rule trans)
  then have kept: "rules (mixerInit maths_exact ?K ?pg' (mixerInit maths_exact ?K ?pg ?st)) ! 2 = ?r"
    by (simp only: example_one_rule old)
  have "mixerRuleApplies (flightModeMask 0)
          (rules (mixerInit maths_exact ?K ?pg' (mixerInit maths_exact ?K ?pg ?st)) ! 2)"
    using T' h m by blast
  then show ?thesis
    using h m kept by blast
qed

end
